theory Spec2Isabelle
  imports Main "HOL-Library.Multiset"
begin

section \<open>monitorable.py: configuration, collection phases and output\<close>

text \<open>
  The script \<^verbatim>\<open>monitorable.py\<close> is a straight-line program: it reads the command line
  and the configuration file, validates format, regions and skipped services, collects
  resources for every (region, service) pair on a thread pool, collects alarms per region
  when the format is \<^verbatim>\<open>audit\<close>, groups and filters by tag and renders the output.

  The classes \<^verbatim>\<open>Resources\<close>, \<^verbatim>\<open>Alarms\<close>, \<^verbatim>\<open>Output\<close> and the service classes live in
  \<^verbatim>\<open>lib/\<close>; the script only calls them. They are parameters of the model (record
  \<open>lib\<close>), as are the values the script reads from its surroundings (record \<open>env\<close>):
  the region list returned by EC2, the service modules found in \<^verbatim>\<open>lib/services\<close>, the
  choices the script leaves to the runtime (the order in which futures complete, the
  iteration order of a Python set), and whether the file system lets the output file be
  opened and written (\<open>None\<close>: the call returns).
\<close>

subsection \<open>Data\<close>

type_synonym region = string
type_synonym service = string

text \<open>Exceptions that can travel through the script: whatever a library call raises
  (opaque to the script), \<^verbatim>\<open>ValueError\<close> of \<^verbatim>\<open>asyncio.wait\<close> on an empty list,
  \<^verbatim>\<open>IndexError\<close> of \<^verbatim>\<open>list(...)[0]\<close> on an empty list, and \<^verbatim>\<open>OSError\<close> of \<^verbatim>\<open>open\<close> or
  \<^verbatim>\<open>write\<close> on the output file.\<close>

datatype exn = LibError string | ValueError | IndexError | OSError string

text \<open>The command line, as \<^verbatim>\<open>argparse\<close> returns it: every option is \<^verbatim>\<open>None\<close> or a string.\<close>

record args =
  arg_format :: "string option"
  arg_output :: "string option"
  arg_regions :: "string option"
  arg_skip :: "string option"
  arg_tag :: "string option"
  arg_filter :: "string option"

text \<open>The keys of the configuration dictionary that the script reads; \<open>None\<close> is
  \<^verbatim>\<open>key not in config\<close>.\<close>

record config =
  cfg_format :: "string option"
  cfg_regions :: "string list option"
  cfg_skip :: "string list option"

text \<open>The module-level variables \<^verbatim>\<open>output_format\<close>, \<^verbatim>\<open>regions\<close> and \<^verbatim>\<open>skip\<close>.\<close>

record settings =
  output_format :: string
  regions :: "region list"
  skip :: "service list"

record env =
  all_regions :: "region list"
  supported_services :: "service list"
  set_order :: nat
  resource_order :: "nat list"
  alarm_order :: "nat list"
  open_file :: "string \<Rightarrow> exn option"
  write_file :: "string \<Rightarrow> string \<Rightarrow> exn option"

text \<open>The library the script calls. \<open>service_classes s r\<close> is the call
  \<^verbatim>\<open>service_classes[s](r)\<close> run by a worker: it returns the service object or raises.
  \<open>alarms_get r\<close> is what \<^verbatim>\<open>alarms.get(r)\<close> does for region \<open>r\<close>: it raises, or it merges the
  alarms of the region into the shared \<^verbatim>\<open>Alarms\<close> object (see \<open>alarms_call\<close> below). The
  remaining calls are made by the main thread and are taken to return.\<close>

record ('c, 'r, 'a) lib =
  service_classes :: "service \<Rightarrow> region \<Rightarrow> exn + 'c"
  alarms_get :: "region \<Rightarrow> exn + ('a \<Rightarrow> 'a)"
  new_resources :: 'r
  new_alarms :: 'a
  resources_add :: "'c \<Rightarrow> 'r \<Rightarrow> 'r"
  group_by_tag :: "string \<Rightarrow> 'r \<Rightarrow> 'r"
  filter_by_tag :: "string \<Rightarrow> 'r \<Rightarrow> 'r"
  out_audit :: "'r \<Rightarrow> 'a \<Rightarrow> bool \<Rightarrow> string"
  out_json :: "'r \<Rightarrow> 'a \<Rightarrow> bool \<Rightarrow> string"
  out_yaml :: "'r \<Rightarrow> 'a \<Rightarrow> bool \<Rightarrow> string"
  out_tags :: "'r \<Rightarrow> 'a \<Rightarrow> bool \<Rightarrow> string"
  out_cfn_monitor :: "'r \<Rightarrow> 'a \<Rightarrow> bool \<Rightarrow> string"
  out_cfn_guardian :: "'r \<Rightarrow> 'a \<Rightarrow> bool \<Rightarrow> string"

text \<open>What the coordinating task does, in the order it does it.\<close>

datatype event =
    EnterResources
  | Dispatched region service
  | Completed region service
  | Failed region service
  | EnterAlarms
  | AlarmDispatched region
  | AlarmCompleted region
  | AlarmFailed region

text \<open>The arguments of a call \<^verbatim>\<open>input_error(arg, provided, supported)\<close>, which prints
  \<^verbatim>\<open>{provided} is not a valid {arg}\nvalid {arg}s: {supported}\<close> and exits with status 1;
  \<open>ie_supported\<close> is the list whose \<^verbatim>\<open>str\<close> is passed.\<close>

record input_err =
  ie_arg :: string
  ie_provided :: string
  ie_supported :: "string list"

text \<open>What a finished run wrote (to the file \<^verbatim>\<open>args.output\<close> or to standard output), with
  the objects it was rendered from.\<close>

record ('r, 'a) report =
  rep_file :: "string option"
  rep_written :: "string list"
  rep_resources :: 'r
  rep_alarms :: 'a
  rep_tag_group :: bool

text \<open>The ways the script ends early: \<^verbatim>\<open>exit(1)\<close> in \<^verbatim>\<open>input_error\<close>, or an exception
  that nothing catches.\<close>

datatype stop = Exit input_err | Uncaught exn

datatype ('r, 'a) outcome =
    Stopped stop
  | Finished "('r, 'a) report"

subsection \<open>Python primitives\<close>

text \<open>Truth value of an optional string: \<^verbatim>\<open>None\<close> and \<^verbatim>\<open>''\<close> are false.\<close>

definition truthy :: "string option \<Rightarrow> bool" where
  "truthy v = (case v of None \<Rightarrow> False | Some s \<Rightarrow> s \<noteq> [])"

text \<open>\<^verbatim>\<open>s.split(',')\<close>.\<close>

fun split :: "char \<Rightarrow> string \<Rightarrow> string list" where
  "split sep [] = [[]]"
| "split sep (c # cs) =
     (if c = sep then [] # split sep cs
      else (case split sep cs of [] \<Rightarrow> [[c]] | w # ws \<Rightarrow> (c # w) # ws))"

text \<open>\<^verbatim>\<open>list(set(xs) - set(ys))[0]\<close>: the first element of the difference in the set's
  iteration order, which the runtime chooses (\<open>k\<close>).\<close>

definition set_diff_first :: "nat \<Rightarrow> string list \<Rightarrow> string list \<Rightarrow> exn + string" where
  "set_diff_first k xs ys =
     (case remdups (filter (\<lambda>x. x \<notin> set ys) xs) of
        [] \<Rightarrow> Inl IndexError
      | d # ds \<Rightarrow> Inr ((d # ds) ! (k mod length (d # ds))))"

text \<open>\<^verbatim>\<open>asyncio.as_completed\<close>: the pending futures in the order they complete. The
  runtime chooses which pending future completes next; \<open>order\<close> supplies the choices.\<close>

function as_completed :: "nat list \<Rightarrow> 'x list \<Rightarrow> 'x list" where
  "as_completed order [] = []"
| "as_completed order (p # ps) =
     (let i = (case order of [] \<Rightarrow> 0 | c # _ \<Rightarrow> c mod length (p # ps))
      in (p # ps) ! i # as_completed (tl order) (take i (p # ps) @ drop (Suc i) (p # ps)))"
  by pat_completeness auto
termination
  by (relation "measure (\<lambda>(order, pending). length pending)")
     (auto split: list.splits simp: less_Suc_eq_le min_def)

subsection \<open>Tag settings (lines 73 to 82)\<close>

record tags =
  tag_group :: bool
  tag :: "string option"
  tag_filter :: "string option"

definition tag_settings :: "args \<Rightarrow> tags" where
  "tag_settings a =
     (if truthy (arg_tag a)
      then \<lparr>tag_group = True, tag = arg_tag a,
            tag_filter = (if truthy (arg_filter a) then arg_filter a else None)\<rparr>
      else \<lparr>tag_group = False, tag = None, tag_filter = None\<rparr>)"

subsection \<open>Validation (lines 51 to 55, 67 to 69 and 85 to 118)\<close>

definition supported_formats :: "string list" where
  "supported_formats = [''audit'', ''json'', ''yaml'', ''tags'', ''cfn-monitor'', ''cfn-guardian'']"

definition defaults :: "env \<Rightarrow> settings" where
  "defaults E = \<lparr>output_format = ''audit'', regions = all_regions E, skip = []\<rparr>"

definition input_error :: "string \<Rightarrow> string \<Rightarrow> string list \<Rightarrow> stop" where
  "input_error arg provided supported =
     Exit \<lparr>ie_arg = arg, ie_provided = provided, ie_supported = supported\<rparr>"

text \<open>The shared shape of the four list checks: \<^verbatim>\<open>all(elem in valid for elem in given)\<close>,
  else \<^verbatim>\<open>input_error(arg, str(list(set(given) - set(valid))[0]), str(valid))\<close>.\<close>

definition check_list ::
  "nat \<Rightarrow> string \<Rightarrow> string list \<Rightarrow> string list \<Rightarrow> stop + string list" where
  "check_list k arg given valid =
     (if list_all (\<lambda>elem. elem \<in> set valid) given then Inr given
      else (case set_diff_first k given valid of
              Inl e \<Rightarrow> Inl (Uncaught e)
            | Inr bad \<Rightarrow> Inl (input_error arg bad valid)))"

definition config_format :: "args \<Rightarrow> config \<Rightarrow> settings \<Rightarrow> stop + settings" where
  "config_format a c st =
     (case cfg_format c of
        Some f \<Rightarrow>
          if \<not> truthy (arg_format a)
          then (if f \<in> set supported_formats then Inr (st\<lparr>output_format := f\<rparr>)
                else Inl (input_error ''format'' f supported_formats))
          else Inr st
      | None \<Rightarrow> Inr st)"

definition config_regions ::
  "env \<Rightarrow> args \<Rightarrow> config \<Rightarrow> settings \<Rightarrow> stop + settings" where
  "config_regions E a c st =
     (case cfg_regions c of
        Some rs \<Rightarrow>
          if \<not> truthy (arg_regions a)
          then (case check_list (set_order E) ''region'' rs (regions st) of
                  Inl x \<Rightarrow> Inl x
                | Inr ok \<Rightarrow> Inr (st\<lparr>regions := ok\<rparr>))
          else Inr st
      | None \<Rightarrow> Inr st)"

definition config_skip ::
  "env \<Rightarrow> args \<Rightarrow> config \<Rightarrow> settings \<Rightarrow> stop + settings" where
  "config_skip E a c st =
     (case cfg_skip c of
        Some ss \<Rightarrow>
          if \<not> truthy (arg_skip a)
          then (case check_list (set_order E) ''service'' ss (supported_services E) of
                  Inl x \<Rightarrow> Inl x
                | Inr ok \<Rightarrow> Inr (st\<lparr>skip := ok\<rparr>))
          else Inr st
      | None \<Rightarrow> Inr st)"

definition cli_format :: "args \<Rightarrow> settings \<Rightarrow> stop + settings" where
  "cli_format a st =
     (case arg_format a of
        Some f \<Rightarrow>
          if f \<noteq> []
          then (if f \<in> set supported_formats then Inr (st\<lparr>output_format := f\<rparr>)
                else Inl (input_error ''format'' f supported_formats))
          else Inr st
      | None \<Rightarrow> Inr st)"

definition cli_regions :: "env \<Rightarrow> args \<Rightarrow> settings \<Rightarrow> stop + settings" where
  "cli_regions E a st =
     (case arg_regions a of
        Some s \<Rightarrow>
          if s \<noteq> []
          then (case check_list (set_order E) ''region'' (split CHR '','' s) (regions st) of
                  Inl x \<Rightarrow> Inl x
                | Inr ok \<Rightarrow> Inr (st\<lparr>regions := ok\<rparr>))
          else Inr st
      | None \<Rightarrow> Inr st)"

definition cli_skip :: "env \<Rightarrow> args \<Rightarrow> settings \<Rightarrow> stop + settings" where
  "cli_skip E a st =
     (case arg_skip a of
        Some s \<Rightarrow>
          if s \<noteq> []
          then (case check_list (set_order E) ''service'' (split CHR '','' s)
                       (supported_services E) of
                  Inl x \<Rightarrow> Inl x
                | Inr ok \<Rightarrow> Inr (st\<lparr>skip := ok\<rparr>))
          else Inr st
      | None \<Rightarrow> Inr st)"

text \<open>Sequencing: an exit or an exception ends the script.\<close>

definition andthen ::
  "('x + settings) \<Rightarrow> (settings \<Rightarrow> 'x + settings) \<Rightarrow> 'x + settings" where
  "andthen m f = (case m of Inl x \<Rightarrow> Inl x | Inr st \<Rightarrow> f st)"

definition validate :: "env \<Rightarrow> args \<Rightarrow> config \<Rightarrow> stop + settings" where
  "validate E a c =
     andthen (andthen (andthen (andthen (andthen (config_format a c (defaults E))
       (config_regions E a c)) (config_skip E a c))
       (cli_format a)) (cli_regions E a)) (cli_skip E a)"

subsection \<open>Resource collection (lines 133 to 141 and 158)\<close>

text \<open>The futures appended to \<^verbatim>\<open>blocking_tasks\<close> by the nested loops, in order.\<close>

definition work_items :: "region list \<Rightarrow> service list \<Rightarrow> service list \<Rightarrow> (region \<times> service) list" where
  "work_items rs services skipped =
     concat (map (\<lambda>region. map (\<lambda>service. (region, service))
                                 (filter (\<lambda>service. service \<notin> set skipped) services)) rs)"

text \<open>The loop \<^verbatim>\<open>for completed in asyncio.as_completed(...): resources.add(await completed)\<close>
  over the futures in completion order: \<^verbatim>\<open>await\<close> returns the worker's result or raises
  its exception, which leaves the loop and the coroutine.\<close>

fun drain ::
  "('c, 'r, 'a) lib \<Rightarrow> (region \<times> service) list \<Rightarrow> 'r \<Rightarrow> event list \<times> (exn + 'r)" where
  "drain L [] res = ([], Inr res)"
| "drain L ((r, s) # ws) res =
     (case service_classes L s r of
        Inl e \<Rightarrow> ([Failed r s], Inl e)
      | Inr obj \<Rightarrow>
          (case drain L ws (resources_add L obj res) of
             (evs, out) \<Rightarrow> (Completed r s # evs, out)))"

definition get_resources ::
  "('c, 'r, 'a) lib \<Rightarrow> env \<Rightarrow> settings \<Rightarrow> 'r \<Rightarrow> event list \<times> (exn + 'r)" where
  "get_resources L E st res =
     (let blocking_tasks = work_items (regions st) (supported_services E) (skip st)
      in case drain L (as_completed (resource_order E) blocking_tasks) res of
           (evs, out) \<Rightarrow> (EnterResources # map (\<lambda>(r, s). Dispatched r s) blocking_tasks @ evs, out))"

subsection \<open>Alarm collection (lines 145 to 150 and 161 to 162)\<close>

text \<open>\<^verbatim>\<open>asyncio.wait\<close> returns when every future is done and raises none of their
  exceptions; the calls \<^verbatim>\<open>alarms.get(region)\<close> act on the shared object one after the
  other, in the order they complete.\<close>

text \<open>Modelled from the spec: \<^verbatim>\<open>lib/alarms.py\<close> is not among the sources, so what one call
  \<^verbatim>\<open>alarms.get(region)\<close> does to the \<^verbatim>\<open>Alarms\<close> object follows the spec's alarm provider
  (\<^verbatim>\<open>fetchAlarms(region)\<close> returns a collection or fails) and its error handling (the failed
  item's contribution is simply absent from the alarm index): a call that raises leaves
  the object as it found it, a call that returns has merged the alarms of its region.\<close>

definition alarms_call :: "('c, 'r, 'a) lib \<Rightarrow> region \<Rightarrow> 'a \<Rightarrow> exn option \<times> 'a" where
  "alarms_call L r al =
     (case alarms_get L r of Inl e \<Rightarrow> (Some e, al) | Inr merge \<Rightarrow> (None, merge al))"

fun wait_all :: "('c, 'r, 'a) lib \<Rightarrow> region list \<Rightarrow> 'a \<Rightarrow> event list \<times> 'a" where
  "wait_all L [] al = ([], al)"
| "wait_all L (r # rs) al =
     (case alarms_call L r al of
        (None, al') \<Rightarrow> (case wait_all L rs al' of (evs, al'') \<Rightarrow> (AlarmCompleted r # evs, al''))
      | (Some e, al') \<Rightarrow> (case wait_all L rs al' of (evs, al'') \<Rightarrow> (AlarmFailed r # evs, al'')))"

text \<open>\<^verbatim>\<open>asyncio.wait\<close> raises \<^verbatim>\<open>ValueError\<close> on an empty list of futures.\<close>

definition get_alarms ::
  "('c, 'r, 'a) lib \<Rightarrow> env \<Rightarrow> settings \<Rightarrow> 'a \<Rightarrow> event list \<times> (exn + 'a)" where
  "get_alarms L E st al =
     (let blocking_tasks = regions st
      in if blocking_tasks = [] then ([EnterAlarms], Inl ValueError)
         else (case wait_all L (as_completed (alarm_order E) blocking_tasks) al of
                 (evs, al') \<Rightarrow> (EnterAlarms # map AlarmDispatched blocking_tasks @ evs, Inr al')))"

subsection \<open>Grouping, filtering and output (lines 166 to 215)\<close>

definition post_process :: "('c, 'r, 'a) lib \<Rightarrow> tags \<Rightarrow> 'r \<Rightarrow> 'r" where
  "post_process L t res =
     (let res1 = (if tag_group t then (case tag t of Some k \<Rightarrow> group_by_tag L k res | None \<Rightarrow> res)
                  else res)
      in (case tag_filter t of Some v \<Rightarrow> filter_by_tag L v res1 | None \<Rightarrow> res1))"

text \<open>The six \<^verbatim>\<open>if output_format == ...\<close> statements, each writing one rendering.\<close>

definition written :: "('c, 'r, 'a) lib \<Rightarrow> string \<Rightarrow> 'r \<Rightarrow> 'a \<Rightarrow> bool \<Rightarrow> string list" where
  "written L fmt res al g =
     (if fmt = ''audit'' then [out_audit L res al g] else []) @
     (if fmt = ''json'' then [out_json L res al g] else []) @
     (if fmt = ''yaml'' then [out_yaml L res al g] else []) @
     (if fmt = ''tags'' then [out_tags L res al g] else []) @
     (if fmt = ''cfn-monitor'' then [out_cfn_monitor L res al g] else []) @
     (if fmt = ''cfn-guardian'' then [out_cfn_guardian L res al g] else [])"

definition render ::
  "('c, 'r, 'a) lib \<Rightarrow> args \<Rightarrow> tags \<Rightarrow> settings \<Rightarrow> 'r \<Rightarrow> 'a \<Rightarrow> ('r, 'a) report" where
  "render L a t st res al =
     \<lparr>rep_file = (if truthy (arg_output a) then arg_output a else None),
      rep_written = written L (output_format st) res al (tag_group t),
      rep_resources = res, rep_alarms = al, rep_tag_group = tag_group t\<rparr>"

text \<open>Where the renderings go (lines 175 to 176, the \<^verbatim>\<open>f.write\<close> of each format, lines 212
  to 215). With \<^verbatim>\<open>--output\<close> the file is opened and each rendering written to it; either
  call may raise \<^verbatim>\<open>OSError\<close>, which nothing catches. Without it the renderings are
  printed.\<close>

fun write_all :: "env \<Rightarrow> string \<Rightarrow> string list \<Rightarrow> exn option" where
  "write_all E p [] = None"
| "write_all E p (t # ts) =
     (case write_file E p t of Some e \<Rightarrow> Some e | None \<Rightarrow> write_all E p ts)"

definition emit :: "env \<Rightarrow> ('r, 'a) report \<Rightarrow> ('r, 'a) outcome" where
  "emit E rep =
     (case rep_file rep of
        None \<Rightarrow> Finished rep
      | Some p \<Rightarrow>
          (case open_file E p of
             Some e \<Rightarrow> Stopped (Uncaught e)
           | None \<Rightarrow>
               (case write_all E p (rep_written rep) of
                  Some e \<Rightarrow> Stopped (Uncaught e)
                | None \<Rightarrow> Finished rep)))"

subsection \<open>The script\<close>

text \<open>Lines 120 to 215 for validated settings: the resource phase, the alarm phase when
  the format is \<^verbatim>\<open>audit\<close>, then grouping, filtering and output. An exception of either
  phase or of the output file is not caught anywhere and ends the script.\<close>

definition collect ::
  "('c, 'r, 'a) lib \<Rightarrow> env \<Rightarrow> args \<Rightarrow> settings \<Rightarrow> event list \<times> ('r, 'a) outcome" where
  "collect L E a st =
     (case get_resources L E st (new_resources L) of
        (evs1, Inl e) \<Rightarrow> (evs1, Stopped (Uncaught e))
      | (evs1, Inr res) \<Rightarrow>
          (case (if output_format st = ''audit'' then get_alarms L E st (new_alarms L)
                 else ([], Inr (new_alarms L))) of
             (evs2, Inl e) \<Rightarrow> (evs1 @ evs2, Stopped (Uncaught e))
           | (evs2, Inr al) \<Rightarrow>
               (evs1 @ evs2,
                emit E (render L a (tag_settings a) st
                          (post_process L (tag_settings a) res) al))))"

definition run ::
  "('c, 'r, 'a) lib \<Rightarrow> env \<Rightarrow> args \<Rightarrow> config \<Rightarrow> event list \<times> ('r, 'a) outcome" where
  "run L E a c =
     (case validate E a c of
        Inl stop \<Rightarrow> ([], Stopped stop)
      | Inr st \<Rightarrow> collect L E a st)"

subsection \<open>Reading a trace\<close>

fun dispatched :: "event list \<Rightarrow> (region \<times> service) list" where
  "dispatched [] = []"
| "dispatched (Dispatched r s # evs) = (r, s) # dispatched evs"
| "dispatched (_ # evs) = dispatched evs"

fun completed :: "event list \<Rightarrow> (region \<times> service) list" where
  "completed [] = []"
| "completed (Completed r s # evs) = (r, s) # completed evs"
| "completed (_ # evs) = completed evs"

fun is_resource_event :: "event \<Rightarrow> bool" where
  "is_resource_event EnterResources = True"
| "is_resource_event (Dispatched r s) = True"
| "is_resource_event (Completed r s) = True"
| "is_resource_event (Failed r s) = True"
| "is_resource_event _ = False"

fun is_alarm_event :: "event \<Rightarrow> bool" where
  "is_alarm_event EnterAlarms = True"
| "is_alarm_event (AlarmDispatched r) = True"
| "is_alarm_event (AlarmCompleted r) = True"
| "is_alarm_event (AlarmFailed r) = True"
| "is_alarm_event _ = False"

text \<open>The value of each setting that the script goes on to validate: the command-line
  argument when it is given and not empty, else the entry of the configuration file.\<close>

definition effective_format :: "args \<Rightarrow> config \<Rightarrow> string option" where
  "effective_format a c = (if truthy (arg_format a) then arg_format a else cfg_format c)"

definition effective_regions :: "args \<Rightarrow> config \<Rightarrow> string list option" where
  "effective_regions a c =
     (if truthy (arg_regions a) then map_option (split CHR '','') (arg_regions a)
      else cfg_regions c)"

definition effective_skip :: "args \<Rightarrow> config \<Rightarrow> string list option" where
  "effective_skip a c =
     (if truthy (arg_skip a) then map_option (split CHR '','') (arg_skip a) else cfg_skip c)"

text \<open>The settings the script ends up with when validation passes, and whether it passes.\<close>

definition chosen :: "env \<Rightarrow> args \<Rightarrow> config \<Rightarrow> settings" where
  "chosen E a c =
     \<lparr>output_format = (case effective_format a c of Some f \<Rightarrow> f | None \<Rightarrow> ''audit''),
      regions = (case effective_regions a c of Some rs \<Rightarrow> rs | None \<Rightarrow> all_regions E),
      skip = (case effective_skip a c of Some ss \<Rightarrow> ss | None \<Rightarrow> [])\<rparr>"

definition format_ok :: "args \<Rightarrow> config \<Rightarrow> bool" where
  "format_ok a c =
     (case effective_format a c of Some f \<Rightarrow> f \<in> set supported_formats | None \<Rightarrow> True)"

definition regions_ok :: "env \<Rightarrow> args \<Rightarrow> config \<Rightarrow> bool" where
  "regions_ok E a c =
     (case effective_regions a c of Some rs \<Rightarrow> set rs \<subseteq> set (all_regions E) | None \<Rightarrow> True)"

definition skip_ok :: "env \<Rightarrow> args \<Rightarrow> config \<Rightarrow> bool" where
  "skip_ok E a c =
     (case effective_skip a c of Some ss \<Rightarrow> set ss \<subseteq> set (supported_services E)
      | None \<Rightarrow> True)"

definition valid_input :: "env \<Rightarrow> args \<Rightarrow> config \<Rightarrow> bool" where
  "valid_input E a c = (format_ok a c \<and> regions_ok E a c \<and> skip_ok E a c)"

text \<open>The message of \<open>ie\<close> names a value that was given and is not valid, and lists the
  valid ones.\<close>

definition names_invalid :: "env \<Rightarrow> args \<Rightarrow> config \<Rightarrow> input_err \<Rightarrow> bool" where
  "names_invalid E a c ie =
     ((ie_arg ie = ''format'' \<and> effective_format a c = Some (ie_provided ie) \<and>
       ie_provided ie \<notin> set supported_formats \<and> ie_supported ie = supported_formats) \<or>
      (ie_arg ie = ''region'' \<and>
       (case effective_regions a c of Some rs \<Rightarrow> ie_provided ie \<in> set rs | None \<Rightarrow> False) \<and>
       ie_provided ie \<notin> set (all_regions E) \<and> ie_supported ie = all_regions E) \<or>
      (ie_arg ie = ''service'' \<and>
       (case effective_skip a c of Some ss \<Rightarrow> ie_provided ie \<in> set ss | None \<Rightarrow> False) \<and>
       ie_provided ie \<notin> set (supported_services E) \<and> ie_supported ie = supported_services E))"

text \<open>A worker's call for a pair returns.\<close>

definition ok_item :: "('c, 'r, 'a) lib \<Rightarrow> region \<times> service \<Rightarrow> bool" where
  "ok_item L w = (\<not> isl (service_classes L (snd w) (fst w)))"

text \<open>The resource phase returns: no worker of a dispatched pair raises.\<close>

definition providers_ok :: "('c, 'r, 'a) lib \<Rightarrow> env \<Rightarrow> settings \<Rightarrow> bool" where
  "providers_ok L E st =
     list_all (ok_item L) (work_items (regions st) (supported_services E) (skip st))"

text \<open>The resource set after adding the objects of the pairs whose call returned, in the
  given order; the alarm set after the fetches that returned, in the given order.\<close>

fun add_all :: "('c, 'r, 'a) lib \<Rightarrow> (region \<times> service) list \<Rightarrow> 'r \<Rightarrow> 'r" where
  "add_all L [] res = res"
| "add_all L ((r, s) # ws) res =
     (case service_classes L s r of
        Inl e \<Rightarrow> add_all L ws res
      | Inr obj \<Rightarrow> add_all L ws (resources_add L obj res))"

definition fetch_ok :: "('c, 'r, 'a) lib \<Rightarrow> region \<Rightarrow> bool" where
  "fetch_ok L r = (\<not> isl (alarms_get L r))"

fun merge_alarms :: "('c, 'r, 'a) lib \<Rightarrow> region list \<Rightarrow> 'a \<Rightarrow> 'a" where
  "merge_alarms L [] al = al"
| "merge_alarms L (r # rs) al =
     (case alarms_get L r of
        Inl e \<Rightarrow> merge_alarms L rs al
      | Inr merge \<Rightarrow> merge_alarms L rs (merge al))"

text \<open>What an audit run renders from: the resource set after grouping and filtering, and
  the alarm set merged from the regions whose fetch returned, in completion order.\<close>

definition collected_resources ::
  "('c, 'r, 'a) lib \<Rightarrow> env \<Rightarrow> args \<Rightarrow> settings \<Rightarrow> 'r" where
  "collected_resources L E a st =
     post_process L (tag_settings a)
       (add_all L (as_completed (resource_order E)
                     (work_items (regions st) (supported_services E) (skip st)))
          (new_resources L))"

definition collected_alarms :: "('c, 'r, 'a) lib \<Rightarrow> env \<Rightarrow> settings \<Rightarrow> 'a" where
  "collected_alarms L E st =
     merge_alarms L (filter (fetch_ok L) (as_completed (alarm_order E) (regions st)))
       (new_alarms L)"

text \<open>The output can be delivered: it is printed, or the file opens and takes every write.\<close>

definition can_write :: "env \<Rightarrow> ('r, 'a) report \<Rightarrow> bool" where
  "can_write E rep =
     (case rep_file rep of
        None \<Rightarrow> True
      | Some p \<Rightarrow> open_file E p = None \<and> write_all E p (rep_written rep) = None)"

fun alarm_dispatched :: "event list \<Rightarrow> region list" where
  "alarm_dispatched [] = []"
| "alarm_dispatched (AlarmDispatched r # evs) = r # alarm_dispatched evs"
| "alarm_dispatched (_ # evs) = alarm_dispatched evs"

fun alarm_done :: "event list \<Rightarrow> region list" where
  "alarm_done [] = []"
| "alarm_done (AlarmCompleted r # evs) = r # alarm_done evs"
| "alarm_done (AlarmFailed r # evs) = r # alarm_done evs"
| "alarm_done (_ # evs) = alarm_done evs"

subsection \<open>A small account for concrete runs\<close>

text \<open>Two regions, two services; a service object is the text \<open>service@region\<close>, the
  resource set the list of objects added, the alarm set the list of regions fetched.
  \<open>bad\<close> lists the pairs whose discovery raises, \<open>bad_alarm\<close> the regions whose alarm
  fetch raises. Every output file can be opened and written but \<^verbatim>\<open>/ro/out\<close>.\<close>

definition ex_lib ::
  "(region \<times> service) list \<Rightarrow> region list \<Rightarrow> (string, string list, string list) lib" where
  "ex_lib bad bad_alarm =
     \<lparr>service_classes = (\<lambda>s r. if (r, s) \<in> set bad then Inl (LibError (s @ ''@'' @ r))
                                else Inr (s @ ''@'' @ r)),
      alarms_get = (\<lambda>r. if r \<in> set bad_alarm then Inl (LibError r)
                          else Inr (\<lambda>al. al @ [r])),
      new_resources = [],
      new_alarms = [],
      resources_add = (\<lambda>obj res. res @ [obj]),
      group_by_tag = (\<lambda>k res. res),
      filter_by_tag = (\<lambda>v res. filter (\<lambda>x. x = v) res),
      out_audit = (\<lambda>res al g. ''audit''),
      out_json = (\<lambda>res al g. ''json''),
      out_yaml = (\<lambda>res al g. ''yaml''),
      out_tags = (\<lambda>res al g. ''tags''),
      out_cfn_monitor = (\<lambda>res al g. ''cfn-monitor''),
      out_cfn_guardian = (\<lambda>res al g. ''cfn-guardian'')\<rparr>"

definition ex_env :: env where
  "ex_env = \<lparr>all_regions = [''r1'', ''r2''], supported_services = [''ec2'', ''s3''],
             set_order = 0, resource_order = [], alarm_order = [],
             open_file = (\<lambda>p. if p = ''/ro/out'' then Some (OSError p) else None),
             write_file = (\<lambda>p t. None)\<rparr>"

definition no_args :: args where
  "no_args = \<lparr>arg_format = None, arg_output = None, arg_regions = None, arg_skip = None,
              arg_tag = None, arg_filter = None\<rparr>"

definition no_config :: config where
  "no_config = \<lparr>cfg_format = None, cfg_regions = None, cfg_skip = None\<rparr>"

section \<open>Properties\<close>

text \<open>Unfolding a run on concrete input.\<close>

lemmas run_eval =
  run_def validate_def andthen_def config_format_def config_regions_def config_skip_def
  cli_format_def cli_regions_def cli_skip_def check_list_def set_diff_first_def input_error_def
  defaults_def supported_formats_def truthy_def collect_def get_resources_def get_alarms_def
  work_items_def post_process_def tag_settings_def render_def written_def Let_def
  emit_def alarms_call_def
  ex_lib_def ex_env_def no_args_def no_config_def

subsection \<open>Validation\<close>

lemma set_diff_first_cases:
  "(set xs \<subseteq> set ys \<and> set_diff_first k xs ys = Inl IndexError) \<or>
   (\<exists>bad. set_diff_first k xs ys = Inr bad \<and> bad \<in> set xs \<and> bad \<notin> set ys)"
proof (cases "remdups (filter (\<lambda>x. x \<notin> set ys) xs)")
  case Nil
  then have "set (remdups (filter (\<lambda>x. x \<notin> set ys) xs)) = {}" by simp
  then have "set xs \<subseteq> set ys" by auto
  with Nil show ?thesis by (simp add: set_diff_first_def)
next
  case (Cons d ds)
  let ?bad = "(d # ds) ! (k mod length (d # ds))"
  have "?bad \<in> set (d # ds)" by (rule nth_mem) simp
  then have "?bad \<in> set (remdups (filter (\<lambda>x. x \<notin> set ys) xs))" using Cons by simp
  then have "?bad \<in> set xs \<and> ?bad \<notin> set ys" by simp
  moreover have "set_diff_first k xs ys = Inr ?bad" using Cons by (simp add: set_diff_first_def)
  ultimately show ?thesis by blast
qed

lemma check_list_cases:
  "(set given \<subseteq> set valid \<and> check_list k arg given valid = Inr given) \<or>
   (\<exists>bad. check_list k arg given valid = Inl (input_error arg bad valid) \<and>
          bad \<in> set given \<and> bad \<notin> set valid)"
proof (cases "list_all (\<lambda>elem. elem \<in> set valid) given")
  case True
  then show ?thesis by (auto simp: check_list_def list_all_iff)
next
  case False
  then have "\<not> set given \<subseteq> set valid" by (auto simp: list_all_iff)
  with set_diff_first_cases[of given valid k] False show ?thesis
    by (auto simp: check_list_def)
qed

lemma check_list_ok:
  "set given \<subseteq> set valid \<Longrightarrow> check_list k arg given valid = Inr given"
  using check_list_cases[of given valid k arg] by auto

lemma check_list_bad:
  "\<not> set given \<subseteq> set valid \<Longrightarrow>
   \<exists>bad. check_list k arg given valid = Inl (input_error arg bad valid) \<and>
         bad \<in> set given \<and> bad \<notin> set valid"
  using check_list_cases[of given valid k arg] by auto

lemma andthen_simps [simp]:
  "andthen (Inl x) f = Inl x" "andthen (Inr st) f = f st"
  by (simp_all add: andthen_def)

lemma config_format_result:
  "config_format a c st =
     (if truthy (arg_format a) then Inr st
      else case cfg_format c of None \<Rightarrow> Inr st
           | Some f \<Rightarrow> if f \<in> set supported_formats then Inr (st\<lparr>output_format := f\<rparr>)
                       else Inl (input_error ''format'' f supported_formats))"
  by (simp add: config_format_def split: option.splits)

lemma cli_format_result:
  "cli_format a st =
     (if truthy (arg_format a)
      then (if the (arg_format a) \<in> set supported_formats
            then Inr (st\<lparr>output_format := the (arg_format a)\<rparr>)
            else Inl (input_error ''format'' (the (arg_format a)) supported_formats))
      else Inr st)"
  by (simp add: cli_format_def truthy_def split: option.splits)

lemma config_regions_result:
  "config_regions E a c st =
     (if truthy (arg_regions a) then Inr st
      else case cfg_regions c of None \<Rightarrow> Inr st
           | Some rs \<Rightarrow> (case check_list (set_order E) ''region'' rs (regions st) of
                           Inl x \<Rightarrow> Inl x | Inr ok \<Rightarrow> Inr (st\<lparr>regions := ok\<rparr>)))"
  by (simp add: config_regions_def split: option.splits)

lemma cli_regions_result:
  "cli_regions E a st =
     (if truthy (arg_regions a)
      then (case check_list (set_order E) ''region''
                   (split CHR '','' (the (arg_regions a))) (regions st) of
              Inl x \<Rightarrow> Inl x | Inr ok \<Rightarrow> Inr (st\<lparr>regions := ok\<rparr>))
      else Inr st)"
  by (simp add: cli_regions_def truthy_def split: option.splits)

lemma config_skip_result:
  "config_skip E a c st =
     (if truthy (arg_skip a) then Inr st
      else case cfg_skip c of None \<Rightarrow> Inr st
           | Some ss \<Rightarrow> (case check_list (set_order E) ''service'' ss (supported_services E) of
                           Inl x \<Rightarrow> Inl x | Inr ok \<Rightarrow> Inr (st\<lparr>skip := ok\<rparr>)))"
  by (simp add: config_skip_def split: option.splits)

lemma cli_skip_result:
  "cli_skip E a st =
     (if truthy (arg_skip a)
      then (case check_list (set_order E) ''service''
                   (split CHR '','' (the (arg_skip a))) (supported_services E) of
              Inl x \<Rightarrow> Inl x | Inr ok \<Rightarrow> Inr (st\<lparr>skip := ok\<rparr>))
      else Inr st)"
  by (simp add: cli_skip_def truthy_def split: option.splits)

lemma validate_valid:
  assumes "valid_input E a c"
  shows "validate E a c = Inr (chosen E a c)"
proof -
  have f: "case effective_format a c of Some f \<Rightarrow> f \<in> set supported_formats | None \<Rightarrow> True"
    and r: "case effective_regions a c of Some rs \<Rightarrow> set rs \<subseteq> set (all_regions E) | None \<Rightarrow> True"
    and s: "case effective_skip a c of Some ss \<Rightarrow> set ss \<subseteq> set (supported_services E) | None \<Rightarrow> True"
    using assms by (simp_all add: valid_input_def format_ok_def regions_ok_def skip_ok_def)
  define F1 where "F1 = (if truthy (arg_format a) then ''audit''
          else case cfg_format c of Some f \<Rightarrow> f | None \<Rightarrow> ''audit'')"
  define R1 where "R1 = (if truthy (arg_regions a) then all_regions E
          else case cfg_regions c of Some rs \<Rightarrow> rs | None \<Rightarrow> all_regions E)"
  define S1 where "S1 = (if truthy (arg_skip a) then []
          else case cfg_skip c of Some ss \<Rightarrow> ss | None \<Rightarrow> [])"
  define F where "F = output_format (chosen E a c)"
  define R where "R = regions (chosen E a c)"
  define S where "S = skip (chosen E a c)"
  have 1: "config_format a c (defaults E) = Inr \<lparr>output_format = F1, regions = all_regions E, skip = []\<rparr>"
    using f by (auto simp: config_format_result effective_format_def defaults_def F1_def split: option.splits if_splits)
  have 2: "config_regions E a c \<lparr>output_format = F1, regions = all_regions E, skip = []\<rparr>
            = Inr \<lparr>output_format = F1, regions = R1, skip = []\<rparr>"
    using r by (auto simp: config_regions_result effective_regions_def check_list_ok R1_def split: option.splits if_splits)
  have 3: "config_skip E a c \<lparr>output_format = F1, regions = R1, skip = []\<rparr>
            = Inr \<lparr>output_format = F1, regions = R1, skip = S1\<rparr>"
    using s by (auto simp: config_skip_result effective_skip_def check_list_ok S1_def split: option.splits if_splits)
  have 4: "cli_format a \<lparr>output_format = F1, regions = R1, skip = S1\<rparr>
            = Inr \<lparr>output_format = F, regions = R1, skip = S1\<rparr>"
    using f by (auto simp: cli_format_result effective_format_def chosen_def truthy_def F_def F1_def split: option.splits if_splits)
  have 5: "cli_regions E a \<lparr>output_format = F, regions = R1, skip = S1\<rparr>
            = Inr \<lparr>output_format = F, regions = R, skip = S1\<rparr>"
    using r by (auto simp: cli_regions_result effective_regions_def chosen_def truthy_def check_list_ok R_def R1_def split: option.splits if_splits)
  have 6: "cli_skip E a \<lparr>output_format = F, regions = R, skip = S1\<rparr>
            = Inr \<lparr>output_format = F, regions = R, skip = S\<rparr>"
    using s by (auto simp: cli_skip_result effective_skip_def chosen_def truthy_def check_list_ok S_def S1_def split: option.splits if_splits)
  have eq: "chosen E a c = \<lparr>output_format = F, regions = R, skip = S\<rparr>"
    by (simp add: F_def R_def S_def)
  show ?thesis by (simp only: validate_def 1 2 3 4 5 6 andthen_simps eq)
qed

lemma config_format_Inr:
  "config_format a c st = Inr st' \<Longrightarrow>
     regions st' = regions st \<and> (\<not> truthy (arg_format a) \<longrightarrow> format_ok a c)"
  by (auto simp: config_format_result format_ok_def effective_format_def split: option.splits if_splits)

lemma config_format_Inl:
  "config_format a c st = Inl x \<Longrightarrow> \<exists>ie. x = Exit ie \<and> names_invalid E a c ie"
  by (auto simp: config_format_result names_invalid_def input_error_def effective_format_def
       split: option.splits if_splits)

lemma cli_format_Inr:
  "cli_format a st = Inr st' \<Longrightarrow>
     regions st' = regions st \<and> (truthy (arg_format a) \<longrightarrow> format_ok a c)"
  by (auto simp: cli_format_result format_ok_def effective_format_def truthy_def split: option.splits if_splits)

lemma cli_format_Inl:
  "cli_format a st = Inl x \<Longrightarrow> \<exists>ie. x = Exit ie \<and> names_invalid E a c ie"
  by (auto simp: cli_format_result names_invalid_def input_error_def effective_format_def truthy_def
       split: option.splits if_splits)

lemma config_regions_Inr:
  assumes "config_regions E a c st = Inr st'" "regions st = all_regions E"
  shows "(truthy (arg_regions a) \<longrightarrow> regions st' = all_regions E) \<and>
         (\<not> truthy (arg_regions a) \<longrightarrow> regions_ok E a c)"
  using check_list_cases[of "the (cfg_regions c)" "all_regions E" "set_order E" "''region''"] assms
  by (auto simp: config_regions_result regions_ok_def effective_regions_def split: option.splits if_splits sum.splits)

lemma config_regions_Inl:
  assumes "config_regions E a c st = Inl x" "regions st = all_regions E"
  shows "\<exists>ie. x = Exit ie \<and> names_invalid E a c ie"
  using check_list_cases[of "the (cfg_regions c)" "all_regions E" "set_order E" "''region''"] assms
  by (auto simp: config_regions_result names_invalid_def input_error_def effective_regions_def
       split: option.splits if_splits sum.splits)

lemma cli_regions_Inr:
  assumes "cli_regions E a st = Inr st'" "truthy (arg_regions a) \<longrightarrow> regions st = all_regions E"
  shows "truthy (arg_regions a) \<longrightarrow> regions_ok E a c"
  using check_list_cases[of "split CHR '','' (the (arg_regions a))" "all_regions E" "set_order E" "''region''"] assms
  by (auto simp: cli_regions_result regions_ok_def effective_regions_def truthy_def split: option.splits if_splits sum.splits)

lemma cli_regions_Inl:
  assumes "cli_regions E a st = Inl x" "truthy (arg_regions a) \<longrightarrow> regions st = all_regions E"
  shows "\<exists>ie. x = Exit ie \<and> names_invalid E a c ie"
  using check_list_cases[of "split CHR '','' (the (arg_regions a))" "all_regions E" "set_order E" "''region''"] assms
  by (auto simp: cli_regions_result names_invalid_def input_error_def effective_regions_def truthy_def
       split: option.splits if_splits sum.splits)

lemma config_skip_Inr:
  assumes "config_skip E a c st = Inr st'"
  shows "regions st' = regions st \<and> (\<not> truthy (arg_skip a) \<longrightarrow> skip_ok E a c)"
  using check_list_cases[of "the (cfg_skip c)" "supported_services E" "set_order E" "''service''"] assms
  by (auto simp: config_skip_result skip_ok_def effective_skip_def split: option.splits if_splits sum.splits)

lemma config_skip_Inl:
  assumes "config_skip E a c st = Inl x"
  shows "\<exists>ie. x = Exit ie \<and> names_invalid E a c ie"
  using check_list_cases[of "the (cfg_skip c)" "supported_services E" "set_order E" "''service''"] assms
  by (auto simp: config_skip_result names_invalid_def input_error_def effective_skip_def
       split: option.splits if_splits sum.splits)

lemma cli_skip_Inr:
  assumes "cli_skip E a st = Inr st'"
  shows "truthy (arg_skip a) \<longrightarrow> skip_ok E a c"
  using check_list_cases[of "split CHR '','' (the (arg_skip a))" "supported_services E" "set_order E" "''service''"] assms
  by (auto simp: cli_skip_result skip_ok_def effective_skip_def truthy_def split: option.splits if_splits sum.splits)

lemma cli_skip_Inl:
  assumes "cli_skip E a st = Inl x"
  shows "\<exists>ie. x = Exit ie \<and> names_invalid E a c ie"
  using check_list_cases[of "split CHR '','' (the (arg_skip a))" "supported_services E" "set_order E" "''service''"] assms
  by (auto simp: cli_skip_result names_invalid_def input_error_def effective_skip_def truthy_def
       split: option.splits if_splits sum.splits)

lemma andthen_Inr: "andthen m f = Inr st' \<Longrightarrow> \<exists>st. m = Inr st \<and> f st = Inr st'"
  by (cases m) simp_all

lemma andthen_Inl: "andthen m f = Inl x \<Longrightarrow> m = Inl x \<or> (\<exists>st. m = Inr st \<and> f st = Inl x)"
  by (cases m) simp_all

lemma validate_cases:
  "(valid_input E a c \<and> validate E a c = Inr (chosen E a c)) \<or>
   (\<not> valid_input E a c \<and> (\<exists>ie. validate E a c = Inl (Exit ie) \<and> names_invalid E a c ie))"
proof (cases "valid_input E a c")
  case True
  then show ?thesis by (simp add: validate_valid)
next
  case False
  have noInr: "validate E a c \<noteq> Inr st" for st
  proof
    assume "validate E a c = Inr st"
    then obtain s1 s2 s3 s4 s5 where
      1: "config_format a c (defaults E) = Inr s1" and 2: "config_regions E a c s1 = Inr s2" and
      3: "config_skip E a c s2 = Inr s3" and 4: "cli_format a s3 = Inr s4" and
      5: "cli_regions E a s4 = Inr s5" and 6: "cli_skip E a s5 = Inr st"
      unfolding validate_def by (blast dest: andthen_Inr)
    have r1: "regions s1 = all_regions E" using config_format_Inr[OF 1] by (simp add: defaults_def)
    have r4: "truthy (arg_regions a) \<longrightarrow> regions s4 = all_regions E"
      using config_regions_Inr[OF 2 r1] config_skip_Inr[OF 3] cli_format_Inr[OF 4] by simp
    have "format_ok a c" using config_format_Inr[OF 1] cli_format_Inr[OF 4] by blast
    moreover have "regions_ok E a c" using config_regions_Inr[OF 2 r1] cli_regions_Inr[OF 5 r4] by blast
    moreover have "skip_ok E a c" using config_skip_Inr[OF 3] cli_skip_Inr[OF 6] by blast
    ultimately show False using False by (simp add: valid_input_def)
  qed
  then obtain x where x: "validate E a c = Inl x" by (cases "validate E a c") auto
  have "\<exists>ie. x = Exit ie \<and> names_invalid E a c ie"
  proof -
    note x' = x[unfolded validate_def]
    from andthen_Inl[OF x'] show ?thesis
    proof
      assume a5: "andthen (andthen (andthen (andthen (config_format a c (defaults E))
         (config_regions E a c)) (config_skip E a c)) (cli_format a)) (cli_regions E a) = Inl x"
      from andthen_Inl[OF a5] show ?thesis
      proof
        assume a4: "andthen (andthen (andthen (config_format a c (defaults E))
           (config_regions E a c)) (config_skip E a c)) (cli_format a) = Inl x"
        from andthen_Inl[OF a4] show ?thesis
        proof
          assume a3: "andthen (andthen (config_format a c (defaults E))
             (config_regions E a c)) (config_skip E a c) = Inl x"
          from andthen_Inl[OF a3] show ?thesis
          proof
            assume a2: "andthen (config_format a c (defaults E)) (config_regions E a c) = Inl x"
            from andthen_Inl[OF a2] show ?thesis
            proof
              assume "config_format a c (defaults E) = Inl x"
              then show ?thesis by (rule config_format_Inl)
            next
              assume "\<exists>st. config_format a c (defaults E) = Inr st \<and> config_regions E a c st = Inl x"
              then obtain s1 where 1: "config_format a c (defaults E) = Inr s1"
                and 2: "config_regions E a c s1 = Inl x" by blast
              have r1: "regions s1 = all_regions E" using config_format_Inr[OF 1] by (simp add: defaults_def)
              show ?thesis by (rule config_regions_Inl[OF 2 r1])
            qed
          next
            assume "\<exists>st. andthen (config_format a c (defaults E)) (config_regions E a c) = Inr st \<and>
                      config_skip E a c st = Inl x"
            then show ?thesis by (blast dest: config_skip_Inl)
          qed
        next
          assume "\<exists>st. andthen (andthen (config_format a c (defaults E))
             (config_regions E a c)) (config_skip E a c) = Inr st \<and> cli_format a st = Inl x"
          then show ?thesis by (blast dest: cli_format_Inl)
        qed
      next
        assume "\<exists>st. andthen (andthen (andthen (config_format a c (defaults E))
           (config_regions E a c)) (config_skip E a c)) (cli_format a) = Inr st \<and>
           cli_regions E a st = Inl x"
        then obtain s4 where 4: "andthen (andthen (andthen (config_format a c (defaults E))
           (config_regions E a c)) (config_skip E a c)) (cli_format a) = Inr s4"
          and 5: "cli_regions E a s4 = Inl x" by blast
        from 4 obtain s1 s2 s3 where
          1: "config_format a c (defaults E) = Inr s1" and 2: "config_regions E a c s1 = Inr s2" and
          3: "config_skip E a c s2 = Inr s3" and 4: "cli_format a s3 = Inr s4"
          by (blast dest: andthen_Inr)
        have r1: "regions s1 = all_regions E" using config_format_Inr[OF 1] by (simp add: defaults_def)
        have r4: "truthy (arg_regions a) \<longrightarrow> regions s4 = all_regions E"
          using config_regions_Inr[OF 2 r1] config_skip_Inr[OF 3] cli_format_Inr[OF 4] by simp
        show ?thesis by (rule cli_regions_Inl[OF 5 r4])
      qed
    next
      assume "\<exists>st. andthen (andthen (andthen (andthen (config_format a c (defaults E))
         (config_regions E a c)) (config_skip E a c)) (cli_format a)) (cli_regions E a) = Inr st \<and>
         cli_skip E a st = Inl x"
      then show ?thesis by (blast dest: cli_skip_Inl)
    qed
  qed
  with x False show ?thesis by auto
qed

subsection \<open>Completion order, work items and traces\<close>

text \<open>The completion order is a permutation of the futures, and every permutation is the
  completion order for some choice of the runtime: the properties below hold for every
  schedule, and no schedule is left out.\<close>

lemma as_completed_mset: "mset (as_completed order xs) = mset xs"
proof (induction order xs rule: as_completed.induct)
  case (1 order)
  then show ?case by simp
next
  case (2 order p ps)
  define i where "i = (case order of [] \<Rightarrow> 0 | c # _ \<Rightarrow> c mod length (p # ps))"
  have i: "i < length (p # ps)" by (auto simp: i_def split: list.splits)
  have "mset (as_completed (tl order) (take i (p # ps) @ drop (Suc i) (p # ps)))
        = mset (take i (p # ps) @ drop (Suc i) (p # ps))"
    using 2[OF i_def] .
  moreover have "mset (p # ps) = mset (take i (p # ps) @ (p # ps) ! i # drop (Suc i) (p # ps))"
    using id_take_nth_drop[OF i] by simp
  ultimately show ?case
    unfolding as_completed.simps Let_def i_def[symmetric] by simp
qed

lemma as_completed_set: "set (as_completed order xs) = set xs"
  using as_completed_mset[of order xs] by (metis set_mset_mset)

lemma as_completed_any_order:
  "mset ys = mset xs \<Longrightarrow> \<exists>order. as_completed order xs = ys"
proof (induction ys arbitrary: xs)
  case Nil
  then show ?case by simp
next
  case (Cons y ys)
  then have "y \<in> set xs" by (metis list.set_intros(1) set_mset_mset)
  then obtain i where i: "i < length xs" "xs ! i = y" by (auto simp: in_set_conv_nth)
  then obtain p ps where xs: "xs = p # ps" by (cases xs) auto
  have "mset xs = mset (take i xs @ drop (Suc i) xs) + {#y#}"
    using id_take_nth_drop[OF i(1)] i(2) by (metis add_mset_add_single mset.simps(2) mset_append union_mset_add_mset_right)
  with Cons.prems have "mset ys = mset (take i xs @ drop (Suc i) xs)" by simp
  from Cons.IH[OF this] obtain order where o: "as_completed order (take i xs @ drop (Suc i) xs) = ys" ..
  have "i mod length (p # ps) = i" using i(1) xs by simp
  then have "as_completed (i # order) (p # ps) = y # ys"
    using o i(2) xs by (simp del: take_Cons' drop_Cons' )
  then show ?case using xs by blast
qed

lemma work_items_set:
  "set (work_items rs sv sk) = set rs \<times> (set sv - set sk)"
  by (auto simp: work_items_def)

lemma work_items_length:
  "length (work_items rs sv sk) = length rs * length (filter (\<lambda>s. s \<notin> set sk) sv)"
  by (induction rs) (simp_all add: work_items_def)

lemma count_list_pair:
  "count_list (map (Pair x) ys) (r, s) = (if r = x then count_list ys s else 0)"
  by (induction ys) auto

lemma count_list_filter:
  "count_list (filter P ys) s = (if P s then count_list ys s else 0)"
  by (induction ys) auto

lemma work_items_count:
  "count_list (work_items rs sv sk) (r, s) =
     count_list rs r * (if s \<in> set sk then 0 else count_list sv s)"
proof (induction rs)
  case Nil
  then show ?case by (simp add: work_items_def)
next
  case (Cons x rs)
  have "work_items (x # rs) sv sk =
          map (Pair x) (filter (\<lambda>s. s \<notin> set sk) sv) @ work_items rs sv sk"
    by (simp add: work_items_def)
  then show ?case
    using Cons by (simp add: count_list_pair count_list_filter algebra_simps)
qed

lemma work_items_distinct:
  "distinct rs \<Longrightarrow> distinct sv \<Longrightarrow> distinct (work_items rs sv sk)"
proof (induction rs)
  case Nil
  then show ?case by (simp add: work_items_def)
next
  case (Cons x rs)
  have eq: "work_items (x # rs) sv sk =
          map (Pair x) (filter (\<lambda>s. s \<notin> set sk) sv) @ work_items rs sv sk"
    by (simp add: work_items_def)
  have "distinct (map (Pair x) (filter (\<lambda>s. s \<notin> set sk) sv))"
    using Cons.prems(2) by (simp add: distinct_map inj_on_def)
  moreover have "set (map (Pair x) (filter (\<lambda>s. s \<notin> set sk) sv)) \<inter> set (work_items rs sv sk) = {}"
    using Cons.prems(1) by (auto simp: work_items_set)
  ultimately show ?case using Cons by (simp add: eq)
qed

lemma dispatched_append: "dispatched (xs @ ys) = dispatched xs @ dispatched ys"
  by (induction xs rule: dispatched.induct) simp_all

lemma completed_append: "completed (xs @ ys) = completed xs @ completed ys"
  by (induction xs rule: completed.induct) simp_all

lemma dispatched_map: "dispatched (map (\<lambda>(r, s). Dispatched r s) ws) = ws"
  by (induction ws) auto

lemma completed_map_dispatched: "completed (map (\<lambda>(r, s). Dispatched r s) ws) = []"
  by (induction ws) auto

lemma completed_map: "completed (map (\<lambda>(r, s). Completed r s) ws) = ws"
  by (induction ws) auto

lemma dispatched_map_completed: "dispatched (map (\<lambda>(r, s). Completed r s) ws) = []"
  by (induction ws) auto

lemma dispatched_no_resource: "\<forall>e\<in>set evs. \<not> is_resource_event e \<Longrightarrow> dispatched evs = []"
  by (induction evs rule: dispatched.induct) simp_all

lemma completed_no_resource: "\<forall>e\<in>set evs. \<not> is_resource_event e \<Longrightarrow> completed evs = []"
  by (induction evs rule: completed.induct) simp_all

lemma drain_ok:
  "list_all (ok_item L) ws \<Longrightarrow>
   drain L ws res = (map (\<lambda>(r, s). Completed r s) ws, Inr (add_all L ws res))"
  by (induction L ws res rule: drain.induct) (auto simp: ok_item_def split: sum.splits)

lemma drain_fail:
  "list_all (ok_item L) pre \<Longrightarrow> service_classes L s r = Inl e \<Longrightarrow>
   drain L (pre @ (r, s) # post) res = (map (\<lambda>(r, s). Completed r s) pre @ [Failed r s], Inl e)"
  by (induction L pre res rule: drain.induct) (auto simp: ok_item_def split: sum.splits)

lemma first_failure:
  assumes "\<not> list_all (ok_item L) ws"
  obtains pre r s post e where "ws = pre @ (r, s) # post" "list_all (ok_item L) pre"
    "service_classes L s r = Inl e"
proof -
  from assms have "\<exists>w\<in>set ws. \<not> ok_item L w" by (simp add: list_all_iff)
  then obtain pre w post where w: "ws = pre @ w # post" "\<not> ok_item L w" "\<forall>y\<in>set pre. ok_item L y"
    by (auto dest!: split_list_first_prop)
  obtain r s where rs: "w = (r, s)" by (cases w)
  from w(2) rs obtain e where "service_classes L s r = Inl e"
    by (cases "service_classes L s r") (auto simp: ok_item_def)
  with w rs that show thesis by (auto simp: list_all_iff)
qed

lemma wait_all_events:
  "\<forall>e\<in>set (fst (wait_all L rs al)). is_alarm_event e"
  by (induction L rs al rule: wait_all.induct) (auto split: option.splits prod.splits)

lemma wait_all_done: "alarm_done (fst (wait_all L rs al)) = rs"
  by (induction L rs al rule: wait_all.induct) (auto split: option.splits prod.splits)

lemma wait_all_no_dispatch: "alarm_dispatched (fst (wait_all L rs al)) = []"
  by (induction L rs al rule: wait_all.induct) (auto split: option.splits prod.splits)

lemma wait_all_merge:
  "snd (wait_all L rs al) = merge_alarms L (filter (fetch_ok L) rs) al"
proof (induction rs arbitrary: al)
  case Nil
  then show ?case by simp
next
  case (Cons r rs)
  show ?case
  proof (cases "alarms_get L r")
    case (Inl e)
    then show ?thesis using Cons[of al]
      by (auto simp: alarms_call_def fetch_ok_def split: prod.splits)
  next
    case (Inr merge)
    then show ?thesis using Cons[of "merge al"]
      by (auto simp: alarms_call_def fetch_ok_def split: prod.splits)
  qed
qed

lemma wait_all_failed:
  "(AlarmFailed r \<in> set (fst (wait_all L rs al))) = (r \<in> set rs \<and> \<not> fetch_ok L r)"
proof (induction rs arbitrary: al)
  case Nil
  then show ?case by simp
next
  case (Cons x rs)
  show ?case
  proof (cases "alarms_get L x")
    case (Inl e)
    then show ?thesis using Cons[of al]
      by (auto simp: alarms_call_def fetch_ok_def split: prod.splits)
  next
    case (Inr merge)
    then show ?thesis using Cons[of "merge al"]
      by (auto simp: alarms_call_def fetch_ok_def split: prod.splits)
  qed
qed

lemma emit_can_write: "can_write E rep \<Longrightarrow> emit E rep = Finished rep"
  by (auto simp: can_write_def emit_def split: option.splits)

subsection \<open>The two phases\<close>

lemma get_resources_eq:
  "get_resources L E st res =
     (EnterResources #
        map (\<lambda>(r, s). Dispatched r s) (work_items (regions st) (supported_services E) (skip st)) @
        fst (drain L (as_completed (resource_order E)
               (work_items (regions st) (supported_services E) (skip st))) res),
      snd (drain L (as_completed (resource_order E)
               (work_items (regions st) (supported_services E) (skip st))) res))"
  by (simp add: get_resources_def Let_def split: prod.splits)

lemma get_resources_ok:
  assumes "providers_ok L E st"
  shows "get_resources L E st res =
     (EnterResources #
        map (\<lambda>(r, s). Dispatched r s) (work_items (regions st) (supported_services E) (skip st)) @
        map (\<lambda>(r, s). Completed r s)
          (as_completed (resource_order E) (work_items (regions st) (supported_services E) (skip st))),
      Inr (add_all L
          (as_completed (resource_order E) (work_items (regions st) (supported_services E) (skip st)))
          res))"
proof -
  have "list_all (ok_item L)
     (as_completed (resource_order E) (work_items (regions st) (supported_services E) (skip st)))"
    using assms by (simp add: providers_ok_def list_all_iff as_completed_set)
  then show ?thesis by (simp add: get_resources_def Let_def drain_ok)
qed

lemma get_resources_fail:
  assumes "\<not> providers_ok L E st"
  shows "\<exists>pre r s post e.
     as_completed (resource_order E) (work_items (regions st) (supported_services E) (skip st))
       = pre @ (r, s) # post \<and>
     list_all (ok_item L) pre \<and> service_classes L s r = Inl e \<and>
     get_resources L E st res =
       (EnterResources #
          map (\<lambda>(r, s). Dispatched r s) (work_items (regions st) (supported_services E) (skip st)) @
          map (\<lambda>(r, s). Completed r s) pre @ [Failed r s],
        Inl e)"
proof -
  have "\<not> list_all (ok_item L)
     (as_completed (resource_order E) (work_items (regions st) (supported_services E) (skip st)))"
    using assms by (simp add: providers_ok_def list_all_iff as_completed_set)
  then obtain pre r s post e where
    "as_completed (resource_order E) (work_items (regions st) (supported_services E) (skip st))
       = pre @ (r, s) # post" "list_all (ok_item L) pre" "service_classes L s r = Inl e"
    by (rule first_failure)
  then show ?thesis by (auto simp: get_resources_def Let_def drain_fail)
qed

lemma get_alarms_nonempty:
  "regions st \<noteq> [] \<Longrightarrow>
   get_alarms L E st al =
     (EnterAlarms # map AlarmDispatched (regions st) @
        fst (wait_all L (as_completed (alarm_order E) (regions st)) al),
      Inr (snd (wait_all L (as_completed (alarm_order E) (regions st)) al)))"
  by (simp add: get_alarms_def Let_def split: prod.splits)

lemma get_alarms_events: "\<forall>e\<in>set (fst (get_alarms L E st al)). is_alarm_event e"
  using wait_all_events[of L "as_completed (alarm_order E) (regions st)" al]
  by (auto simp: get_alarms_def Let_def split: prod.splits)

lemma get_alarms_enter: "EnterAlarms \<in> set (fst (get_alarms L E st al))"
  by (auto simp: get_alarms_def Let_def split: prod.splits)

lemma drain_events: "\<forall>e\<in>set (fst (drain L ws res)). is_resource_event e"
  by (induction L ws res rule: drain.induct) (auto split: sum.splits prod.splits)

lemma get_resources_events: "\<forall>e\<in>set (fst (get_resources L E st res)). is_resource_event e"
  using drain_events[of L "as_completed (resource_order E)
      (work_items (regions st) (supported_services E) (skip st))" res]
  by (auto simp: get_resources_def Let_def split: prod.splits)

lemma alarm_not_resource: "is_alarm_event e \<Longrightarrow> \<not> is_resource_event e"
  by (cases e) simp_all

lemma dispatched_get_resources:
  "dispatched (fst (get_resources L E st res)) =
     work_items (regions st) (supported_services E) (skip st)"
proof -
  have "dispatched (fst (drain L ws res)) = []" for ws
    by (induction L ws res rule: drain.induct) (auto split: sum.splits prod.splits)
  then show ?thesis
    by (simp add: get_resources_eq dispatched_append dispatched_map)
qed

lemma collect_shape:
  "\<exists>evs2. fst (collect L E a st) = fst (get_resources L E st (new_resources L)) @ evs2 \<and>
     (\<forall>e\<in>set evs2. is_alarm_event e) \<and>
     (evs2 \<noteq> [] \<longrightarrow> providers_ok L E st \<and> output_format st = ''audit'')"
proof (cases "providers_ok L E st")
  case True
  show ?thesis
  proof (cases "output_format st = ''audit''")
    case audit: True
    obtain evs2 out where g: "get_alarms L E st (new_alarms L) = (evs2, out)"
      by (cases "get_alarms L E st (new_alarms L)")
    then have "\<forall>e\<in>set evs2. is_alarm_event e"
      using get_alarms_events[of L E st "new_alarms L"] by simp
    then show ?thesis using True audit g
      by (cases out) (simp_all add: collect_def get_resources_ok)
  next
    case False
    then show ?thesis using True by (simp add: collect_def get_resources_ok)
  qed
next
  case False
  from get_resources_fail[OF False, of "new_resources L"]
  show ?thesis by (auto simp: collect_def)
qed

lemma dispatched_collect:
  "dispatched (fst (collect L E a st)) = work_items (regions st) (supported_services E) (skip st)"
proof -
  from collect_shape[of L E a st] obtain evs2 where
    e: "fst (collect L E a st) = fst (get_resources L E st (new_resources L)) @ evs2"
       "\<forall>e\<in>set evs2. is_alarm_event e" by blast
  then have "dispatched evs2 = []"
    by (intro dispatched_no_resource) (auto dest: alarm_not_resource)
  then show ?thesis using e(1) by (simp add: dispatched_append dispatched_get_resources)
qed

subsection \<open>C3: the dispatched work items\<close>

text \<open>
  C3, as the script has it. When the region list has no repeated entry and no two service
  modules share a name, the pairs dispatched to the pool are exactly the cross product of
  the selected regions with the services that are not skipped, their number is
  \<open>|regions| * |services - skip|\<close>, and no pair is dispatched twice. (Without that
  condition a pair is dispatched once per occurrence, see \<open>work_items_count\<close>.)
\<close>

theorem dispatch_cross_product:
  assumes "validate E a c = Inr st"
    and "distinct (regions st)" and "distinct (supported_services E)"
  shows "dispatched (fst (run L E a c)) = work_items (regions st) (supported_services E) (skip st) \<and>
         set (dispatched (fst (run L E a c))) =
           set (regions st) \<times> (set (supported_services E) - set (skip st)) \<and>
         length (dispatched (fst (run L E a c))) =
           card (set (regions st)) * card (set (supported_services E) - set (skip st)) \<and>
         distinct (dispatched (fst (run L E a c)))"
proof -
  let ?ws = "work_items (regions st) (supported_services E) (skip st)"
  have d: "dispatched (fst (run L E a c)) = ?ws"
    using assms(1) by (simp add: run_def dispatched_collect)
  have "distinct (filter (\<lambda>s. s \<notin> set (skip st)) (supported_services E))"
    using assms(3) by simp
  then have "length (filter (\<lambda>s. s \<notin> set (skip st)) (supported_services E)) =
        card (set (supported_services E) - set (skip st))"
    by (metis distinct_card set_diff_eq set_filter Collect_conj_eq Collect_mem_eq)
  moreover have "length (regions st) = card (set (regions st))"
    using assms(2) by (simp add: distinct_card)
  ultimately have "length ?ws = card (set (regions st)) * card (set (supported_services E) - set (skip st))"
    by (simp add: work_items_length)
  then show ?thesis
    using d work_items_set[of "regions st" "supported_services E" "skip st"]
      work_items_distinct[OF assms(2,3), of "skip st"] by simp
qed

theorem dispatch_cross_product_witness:
  "validate ex_env no_args no_config =
     Inr \<lparr>output_format = ''audit'', regions = [''r1'', ''r2''], skip = []\<rparr> \<and>
   distinct [''r1'', ''r2''] \<and> distinct (supported_services ex_env) \<and>
   dispatched (fst (run (ex_lib [] []) ex_env no_args no_config)) =
     [(''r1'', ''ec2''), (''r1'', ''s3''), (''r2'', ''ec2''), (''r2'', ''s3'')] \<and>
   length (dispatched (fst (run (ex_lib [] []) ex_env no_args no_config))) = 2 * 2 \<and>
   distinct (dispatched (fst (run (ex_lib [] []) ex_env no_args no_config)))"
proof -
  have v: "validate ex_env no_args no_config =
     Inr \<lparr>output_format = ''audit'', regions = [''r1'', ''r2''], skip = []\<rparr>"
    by (simp add: run_eval)
  have d1: "distinct (regions \<lparr>output_format = ''audit'', regions = [''r1'', ''r2''], skip = []\<rparr>)"
    by simp
  have d2: "distinct (supported_services ex_env)" by (simp add: ex_env_def)
  from dispatch_cross_product[OF v d1 d2, of "ex_lib [] []"] v d2
  show ?thesis by (simp add: work_items_def ex_env_def)
qed

text \<open>The command line \<^verbatim>\<open>--regions r1,r1\<close> passes validation, and every pair of \<open>r1\<close> is
  dispatched twice.\<close>

theorem repeated_region_dispatched_twice:
  "validate ex_env (no_args\<lparr>arg_regions := Some ''r1,r1''\<rparr>) no_config =
     Inr \<lparr>output_format = ''audit'', regions = [''r1'', ''r1''], skip = []\<rparr> \<and>
   dispatched (fst (run (ex_lib [] []) ex_env (no_args\<lparr>arg_regions := Some ''r1,r1''\<rparr>) no_config)) =
     [(''r1'', ''ec2''), (''r1'', ''s3''), (''r1'', ''ec2''), (''r1'', ''s3'')]"
  by (simp add: run_eval)

subsection \<open>C1: a provider that raises\<close>

lemma run_valid: "validate E a c = Inr st \<Longrightarrow> run L E a c = collect L E a st"
  by (simp add: run_def)

lemma run_stopped: "validate E a c = Inl x \<Longrightarrow> run L E a c = ([], Stopped x)"
  by (simp add: run_def)

lemma collect_fail:
  assumes "\<not> providers_ok L E st"
  shows "\<exists>pre r s post e.
     as_completed (resource_order E) (work_items (regions st) (supported_services E) (skip st))
       = pre @ (r, s) # post \<and>
     list_all (ok_item L) pre \<and> service_classes L s r = Inl e \<and>
     collect L E a st =
       (EnterResources #
          map (\<lambda>(r, s). Dispatched r s) (work_items (regions st) (supported_services E) (skip st)) @
          map (\<lambda>(r, s). Completed r s) pre @ [Failed r s],
        Stopped (Uncaught e))"
proof -
  from get_resources_fail[OF assms, of "new_resources L"] obtain pre r s post e where
    *: "as_completed (resource_order E) (work_items (regions st) (supported_services E) (skip st))
       = pre @ (r, s) # post" "list_all (ok_item L) pre" "service_classes L s r = Inl e"
     "get_resources L E st (new_resources L) =
       (EnterResources #
          map (\<lambda>(r, s). Dispatched r s) (work_items (regions st) (supported_services E) (skip st)) @
          map (\<lambda>(r, s). Completed r s) pre @ [Failed r s],
        Inl e)" by blast
  have "collect L E a st =
       (EnterResources #
          map (\<lambda>(r, s). Dispatched r s) (work_items (regions st) (supported_services E) (skip st)) @
          map (\<lambda>(r, s). Completed r s) pre @ [Failed r s],
        Stopped (Uncaught e))"
    by (simp add: collect_def *(4))
  with *(1,2,3) show ?thesis by blast
qed

text \<open>
  C1, as the script has it. In a run that passes validation and in which the call of some
  dispatched pair raises (in particular when exactly one does), every pair is still
  dispatched, the objects of the pairs that complete before the first failing one are
  added, and then the exception leaves \<^verbatim>\<open>get_resources\<close> uncaught: the script stops there,
  with no alarm collection and no output, and the failure is the exception as raised, with
  no region or service attached by the script.
\<close>

theorem provider_failure_aborts_run:
  assumes "validate E a c = Inr st" and "\<not> providers_ok L E st"
  shows "\<exists>pre r s post e.
     as_completed (resource_order E) (work_items (regions st) (supported_services E) (skip st))
       = pre @ (r, s) # post \<and>
     list_all (ok_item L) pre \<and> service_classes L s r = Inl e \<and>
     run L E a c =
       (EnterResources #
          map (\<lambda>(r, s). Dispatched r s) (work_items (regions st) (supported_services E) (skip st)) @
          map (\<lambda>(r, s). Completed r s) pre @ [Failed r s],
        Stopped (Uncaught e))"
  using collect_fail[OF assms(2), of a] by (simp add: run_valid[OF assms(1)])

theorem provider_failure_aborts_run_witness:
  "validate ex_env no_args no_config =
     Inr \<lparr>output_format = ''audit'', regions = [''r1'', ''r2''], skip = []\<rparr> \<and>
   \<not> providers_ok (ex_lib [(''r1'', ''s3'')] []) ex_env
        \<lparr>output_format = ''audit'', regions = [''r1'', ''r2''], skip = []\<rparr> \<and>
   (\<exists>pre r s post e.
     as_completed (resource_order ex_env)
        (work_items [''r1'', ''r2''] (supported_services ex_env) []) = pre @ (r, s) # post \<and>
     list_all (ok_item (ex_lib [(''r1'', ''s3'')] [])) pre \<and>
     service_classes (ex_lib [(''r1'', ''s3'')] []) s r = Inl e \<and>
     run (ex_lib [(''r1'', ''s3'')] []) ex_env no_args no_config =
       (EnterResources #
          map (\<lambda>(r, s). Dispatched r s)
            (work_items [''r1'', ''r2''] (supported_services ex_env) []) @
          map (\<lambda>(r, s). Completed r s) pre @ [Failed r s],
        Stopped (Uncaught e)))"
proof -
  have v: "validate ex_env no_args no_config =
     Inr \<lparr>output_format = ''audit'', regions = [''r1'', ''r2''], skip = []\<rparr>"
    by (simp add: run_eval)
  have np: "\<not> providers_ok (ex_lib [(''r1'', ''s3'')] []) ex_env
        \<lparr>output_format = ''audit'', regions = [''r1'', ''r2''], skip = []\<rparr>"
    by (simp add: providers_ok_def ok_item_def work_items_def ex_env_def ex_lib_def)
  from provider_failure_aborts_run[OF v np] v np show ?thesis by simp
qed

text \<open>One provider raises, the other three return: the run stops with the exception.\<close>

theorem one_failing_provider_stops_the_run:
  "service_classes (ex_lib [(''r1'', ''s3'')] []) ''s3'' ''r1'' = Inl (LibError ''s3@r1'') \<and>
   service_classes (ex_lib [(''r1'', ''s3'')] []) ''ec2'' ''r1'' = Inr ''ec2@r1'' \<and>
   service_classes (ex_lib [(''r1'', ''s3'')] []) ''ec2'' ''r2'' = Inr ''ec2@r2'' \<and>
   service_classes (ex_lib [(''r1'', ''s3'')] []) ''s3'' ''r2'' = Inr ''s3@r2'' \<and>
   run (ex_lib [(''r1'', ''s3'')] []) ex_env (no_args\<lparr>arg_format := Some ''json''\<rparr>) no_config =
     ([EnterResources,
       Dispatched ''r1'' ''ec2'', Dispatched ''r1'' ''s3'',
       Dispatched ''r2'' ''ec2'', Dispatched ''r2'' ''s3'',
       Completed ''r1'' ''ec2'', Failed ''r1'' ''s3''],
      Stopped (Uncaught (LibError ''s3@r1'')))"
  by (simp add: run_eval)

subsection \<open>C2: a filter without a tag\<close>

lemma validate_arg_filter: "validate E (a\<lparr>arg_filter := x\<rparr>) c = validate E a c"
proof -
  have "config_format (a\<lparr>arg_filter := x\<rparr>) c = config_format a c"
    by (simp add: fun_eq_iff config_format_def split: option.splits)
  moreover have "config_regions E (a\<lparr>arg_filter := x\<rparr>) c = config_regions E a c"
    by (simp add: fun_eq_iff config_regions_def split: option.splits)
  moreover have "config_skip E (a\<lparr>arg_filter := x\<rparr>) c = config_skip E a c"
    by (simp add: fun_eq_iff config_skip_def split: option.splits)
  moreover have "cli_format (a\<lparr>arg_filter := x\<rparr>) = cli_format a"
    by (simp add: fun_eq_iff cli_format_def split: option.splits)
  moreover have "cli_regions E (a\<lparr>arg_filter := x\<rparr>) = cli_regions E a"
    by (simp add: fun_eq_iff cli_regions_def split: option.splits)
  moreover have "cli_skip E (a\<lparr>arg_filter := x\<rparr>) = cli_skip E a"
    by (simp add: fun_eq_iff cli_skip_def split: option.splits)
  ultimately show ?thesis by (simp add: validate_def)
qed

lemma collect_args:
  assumes "tag_settings a' = tag_settings a" and "arg_output a' = arg_output a"
  shows "collect L E a' st = collect L E a st"
proof -
  have "render L a' (tag_settings a') st res al = render L a (tag_settings a) st res al" for res al
    using assms by (simp add: render_def)
  then show ?thesis using assms(1) by (simp add: collect_def split: prod.splits sum.splits)
qed

text \<open>
  C2, as the script has it. When \<^verbatim>\<open>--filter\<close> is given without \<^verbatim>\<open>--tag\<close>, the filter value
  is dropped (\<^verbatim>\<open>tag_filter = False\<close>) and the run is the run without the filter: the same
  trace, the same output, no error.
\<close>

theorem filter_without_tag_ignored:
  assumes "\<not> truthy (arg_tag a)"
  shows "tag_filter (tag_settings a) = None \<and>
         run L E (a\<lparr>arg_filter := x\<rparr>) c = run L E a c"
proof -
  have t: "tag_settings (a\<lparr>arg_filter := x\<rparr>) = tag_settings a"
    using assms by (simp add: tag_settings_def)
  have "collect L E (a\<lparr>arg_filter := x\<rparr>) st = collect L E a st" for st
    by (rule collect_args) (simp_all add: t)
  then have "run L E (a\<lparr>arg_filter := x\<rparr>) c = run L E a c"
    by (simp add: run_def validate_arg_filter split: sum.splits)
  moreover have "tag_filter (tag_settings a) = None"
    using assms by (simp add: tag_settings_def)
  ultimately show ?thesis by simp
qed

theorem filter_without_tag_ignored_witness:
  "\<not> truthy (arg_tag no_args) \<and>
   tag_filter (tag_settings no_args) = None \<and>
   run (ex_lib [] []) ex_env (no_args\<lparr>arg_filter := Some ''ec2@r1''\<rparr>) no_config =
     run (ex_lib [] []) ex_env no_args no_config"
proof -
  have h: "\<not> truthy (arg_tag no_args)" by (simp add: truthy_def no_args_def)
  from filter_without_tag_ignored[OF h, where x = "Some ''ec2@r1''" and L = "ex_lib [] []"
      and E = ex_env and c = no_config] h
  show ?thesis by simp
qed

text \<open>A filter without a tag: the run finishes, with all four resources.\<close>

theorem filter_without_tag_is_not_fatal:
  "run (ex_lib [] []) ex_env
       (no_args\<lparr>arg_format := Some ''json'', arg_filter := Some ''ec2@r1''\<rparr>) no_config =
     ([EnterResources,
       Dispatched ''r1'' ''ec2'', Dispatched ''r1'' ''s3'',
       Dispatched ''r2'' ''ec2'', Dispatched ''r2'' ''s3'',
       Completed ''r1'' ''ec2'', Completed ''r1'' ''s3'',
       Completed ''r2'' ''ec2'', Completed ''r2'' ''s3''],
      Finished \<lparr>rep_file = None, rep_written = [''json''],
                rep_resources = [''ec2@r1'', ''s3@r1'', ''ec2@r2'', ''s3@r2''],
                rep_alarms = [], rep_tag_group = False\<rparr>)"
  by (simp add: run_eval)

subsection \<open>C7: invalid input\<close>

text \<open>
  C7, as the script has it. When the value in force for format, regions or skip (the
  command-line argument if given and not empty, else the entry of the configuration file)
  is invalid, the script calls \<^verbatim>\<open>input_error\<close> and exits before anything is dispatched; the
  message names a value that was given and is not valid, and lists the valid ones. An
  invalid entry of the configuration file whose setting is also given on the command line
  is never looked at.
\<close>

theorem invalid_input_exits_before_dispatch:
  assumes "(\<exists>f. effective_format a c = Some f \<and> f \<notin> set supported_formats) \<or>
           (\<exists>rs. effective_regions a c = Some rs \<and> \<not> set rs \<subseteq> set (all_regions E)) \<or>
           (\<exists>ss. effective_skip a c = Some ss \<and> \<not> set ss \<subseteq> set (supported_services E))"
  shows "\<exists>ie. run L E a c = ([], Stopped (Exit ie)) \<and> names_invalid E a c ie"
proof -
  have "\<not> valid_input E a c"
    using assms by (auto simp: valid_input_def format_ok_def regions_ok_def skip_ok_def)
  with validate_cases[of E a c] obtain ie where
    "validate E a c = Inl (Exit ie)" "names_invalid E a c ie" by blast
  then show ?thesis by (auto simp: run_stopped)
qed

theorem invalid_input_exits_before_dispatch_witness:
  "effective_regions (no_args\<lparr>arg_regions := Some ''r1,r3''\<rparr>) no_config = Some [''r1'', ''r3''] \<and>
   \<not> set [''r1'', ''r3''] \<subseteq> set (all_regions ex_env) \<and>
   run (ex_lib [] []) ex_env (no_args\<lparr>arg_regions := Some ''r1,r3''\<rparr>) no_config =
     ([], Stopped (Exit \<lparr>ie_arg = ''region'', ie_provided = ''r3'',
                          ie_supported = [''r1'', ''r2'']\<rparr>)) \<and>
   names_invalid ex_env (no_args\<lparr>arg_regions := Some ''r1,r3''\<rparr>) no_config
     \<lparr>ie_arg = ''region'', ie_provided = ''r3'', ie_supported = [''r1'', ''r2'']\<rparr>"
proof -
  have e: "effective_regions (no_args\<lparr>arg_regions := Some ''r1,r3''\<rparr>) no_config = Some [''r1'', ''r3'']"
    by (simp add: effective_regions_def truthy_def no_args_def no_config_def)
  have n: "\<not> set [''r1'', ''r3''] \<subseteq> set (all_regions ex_env)" by (simp add: ex_env_def)
  have r: "run (ex_lib [] []) ex_env (no_args\<lparr>arg_regions := Some ''r1,r3''\<rparr>) no_config =
     ([], Stopped (Exit \<lparr>ie_arg = ''region'', ie_provided = ''r3'',
                          ie_supported = [''r1'', ''r2'']\<rparr>))"
    by (simp add: run_eval)
  from e n have "(\<exists>f. effective_format (no_args\<lparr>arg_regions := Some ''r1,r3''\<rparr>) no_config = Some f \<and> f \<notin> set supported_formats) \<or>
           (\<exists>rs. effective_regions (no_args\<lparr>arg_regions := Some ''r1,r3''\<rparr>) no_config = Some rs \<and> \<not> set rs \<subseteq> set (all_regions ex_env)) \<or>
           (\<exists>ss. effective_skip (no_args\<lparr>arg_regions := Some ''r1,r3''\<rparr>) no_config = Some ss \<and> \<not> set ss \<subseteq> set (supported_services ex_env))"
    by blast
  from invalid_input_exits_before_dispatch[OF this, where L = "ex_lib [] []"] r e n
  show ?thesis by auto
qed

text \<open>An invalid format in the configuration file, a valid one on the command line: the run
  finishes and dispatches all four pairs.\<close>

theorem invalid_config_format_overridden:
  "cfg_format (no_config\<lparr>cfg_format := Some ''bogus''\<rparr>) = Some ''bogus'' \<and>
   ''bogus'' \<notin> set supported_formats \<and>
   run (ex_lib [] []) ex_env (no_args\<lparr>arg_format := Some ''json''\<rparr>)
       (no_config\<lparr>cfg_format := Some ''bogus''\<rparr>) =
     ([EnterResources,
       Dispatched ''r1'' ''ec2'', Dispatched ''r1'' ''s3'',
       Dispatched ''r2'' ''ec2'', Dispatched ''r2'' ''s3'',
       Completed ''r1'' ''ec2'', Completed ''r1'' ''s3'',
       Completed ''r2'' ''ec2'', Completed ''r2'' ''s3''],
      Finished \<lparr>rep_file = None, rep_written = [''json''],
                rep_resources = [''ec2@r1'', ''s3@r1'', ''ec2@r2'', ''s3@r2''],
                rep_alarms = [], rep_tag_group = False\<rparr>)"
  by (simp add: run_eval)

subsection \<open>C10: the command line overrides the configuration file\<close>

lemma validate_cfg_format:
  assumes "truthy (arg_format a)"
  shows "validate E a (c\<lparr>cfg_format := x\<rparr>) = validate E a c"
proof -
  have "config_format a (c\<lparr>cfg_format := x\<rparr>) = config_format a c"
    using assms by (simp add: fun_eq_iff config_format_def split: option.splits)
  moreover have "config_regions E a (c\<lparr>cfg_format := x\<rparr>) = config_regions E a c"
    by (simp add: fun_eq_iff config_regions_def)
  moreover have "config_skip E a (c\<lparr>cfg_format := x\<rparr>) = config_skip E a c"
    by (simp add: fun_eq_iff config_skip_def)
  ultimately show ?thesis by (simp add: validate_def)
qed

lemma validate_cfg_regions:
  assumes "truthy (arg_regions a)"
  shows "validate E a (c\<lparr>cfg_regions := y\<rparr>) = validate E a c"
proof -
  have "config_format a (c\<lparr>cfg_regions := y\<rparr>) = config_format a c"
    by (simp add: fun_eq_iff config_format_def)
  moreover have "config_regions E a (c\<lparr>cfg_regions := y\<rparr>) = config_regions E a c"
    using assms by (simp add: fun_eq_iff config_regions_def split: option.splits)
  moreover have "config_skip E a (c\<lparr>cfg_regions := y\<rparr>) = config_skip E a c"
    by (simp add: fun_eq_iff config_skip_def)
  ultimately show ?thesis by (simp add: validate_def)
qed

lemma validate_cfg_skip:
  assumes "truthy (arg_skip a)"
  shows "validate E a (c\<lparr>cfg_skip := z\<rparr>) = validate E a c"
proof -
  have "config_format a (c\<lparr>cfg_skip := z\<rparr>) = config_format a c"
    by (simp add: fun_eq_iff config_format_def)
  moreover have "config_regions E a (c\<lparr>cfg_skip := z\<rparr>) = config_regions E a c"
    by (simp add: fun_eq_iff config_regions_def)
  moreover have "config_skip E a (c\<lparr>cfg_skip := z\<rparr>) = config_skip E a c"
    using assms by (simp add: fun_eq_iff config_skip_def split: option.splits)
  ultimately show ?thesis by (simp add: validate_def)
qed

text \<open>
  C10. For each of format, regions and skip: when the command-line argument is given (and
  not empty), the run does not depend on the entry of the configuration file at all, so an
  invalid entry causes no error; and the validated settings are the command-line value if
  given, else the entry of the configuration file, else the default.
\<close>

theorem cli_overrides_config:
  "(truthy (arg_format a) \<longrightarrow> run L E a (c\<lparr>cfg_format := x\<rparr>) = run L E a c) \<and>
   (truthy (arg_regions a) \<longrightarrow> run L E a (c\<lparr>cfg_regions := y\<rparr>) = run L E a c) \<and>
   (truthy (arg_skip a) \<longrightarrow> run L E a (c\<lparr>cfg_skip := z\<rparr>) = run L E a c) \<and>
   (validate E a c = Inr st \<longrightarrow> st = chosen E a c)"
proof -
  have "validate E a c = Inr st \<longrightarrow> st = chosen E a c"
    using validate_cases[of E a c] by auto
  then show ?thesis
    by (simp add: run_def validate_cfg_format validate_cfg_regions validate_cfg_skip)
qed

theorem cli_overrides_config_witness:
  "truthy (arg_format \<lparr>arg_format = Some ''json'', arg_output = None, arg_regions = Some ''r1'',
                       arg_skip = Some ''s3'', arg_tag = None, arg_filter = None\<rparr>) \<and>
   truthy (arg_regions \<lparr>arg_format = Some ''json'', arg_output = None, arg_regions = Some ''r1'',
                       arg_skip = Some ''s3'', arg_tag = None, arg_filter = None\<rparr>) \<and>
   truthy (arg_skip \<lparr>arg_format = Some ''json'', arg_output = None, arg_regions = Some ''r1'',
                       arg_skip = Some ''s3'', arg_tag = None, arg_filter = None\<rparr>) \<and>
   validate ex_env \<lparr>arg_format = Some ''json'', arg_output = None, arg_regions = Some ''r1'',
                       arg_skip = Some ''s3'', arg_tag = None, arg_filter = None\<rparr> no_config =
     Inr \<lparr>output_format = ''json'', regions = [''r1''], skip = [''s3'']\<rparr> \<and>
   run (ex_lib [] []) ex_env
       \<lparr>arg_format = Some ''json'', arg_output = None, arg_regions = Some ''r1'',
        arg_skip = Some ''s3'', arg_tag = None, arg_filter = None\<rparr>
       (no_config\<lparr>cfg_format := Some ''bogus''\<rparr>) =
     run (ex_lib [] []) ex_env
       \<lparr>arg_format = Some ''json'', arg_output = None, arg_regions = Some ''r1'',
        arg_skip = Some ''s3'', arg_tag = None, arg_filter = None\<rparr> no_config \<and>
   run (ex_lib [] []) ex_env
       \<lparr>arg_format = Some ''json'', arg_output = None, arg_regions = Some ''r1'',
        arg_skip = Some ''s3'', arg_tag = None, arg_filter = None\<rparr>
       (no_config\<lparr>cfg_regions := Some [''mars'']\<rparr>) =
     run (ex_lib [] []) ex_env
       \<lparr>arg_format = Some ''json'', arg_output = None, arg_regions = Some ''r1'',
        arg_skip = Some ''s3'', arg_tag = None, arg_filter = None\<rparr> no_config \<and>
   run (ex_lib [] []) ex_env
       \<lparr>arg_format = Some ''json'', arg_output = None, arg_regions = Some ''r1'',
        arg_skip = Some ''s3'', arg_tag = None, arg_filter = None\<rparr>
       (no_config\<lparr>cfg_skip := Some [''nosuch'']\<rparr>) =
     run (ex_lib [] []) ex_env
       \<lparr>arg_format = Some ''json'', arg_output = None, arg_regions = Some ''r1'',
        arg_skip = Some ''s3'', arg_tag = None, arg_filter = None\<rparr> no_config \<and>
   \<lparr>output_format = ''json'', regions = [''r1''], skip = [''s3'']\<rparr> =
     chosen ex_env \<lparr>arg_format = Some ''json'', arg_output = None, arg_regions = Some ''r1'',
                       arg_skip = Some ''s3'', arg_tag = None, arg_filter = None\<rparr> no_config"
proof -
  let ?a = "\<lparr>arg_format = Some ''json'', arg_output = None, arg_regions = Some ''r1'',
             arg_skip = Some ''s3'', arg_tag = None, arg_filter = None\<rparr>"
  have t: "truthy (arg_format ?a)" "truthy (arg_regions ?a)" "truthy (arg_skip ?a)"
    by (simp_all add: truthy_def)
  have v: "validate ex_env ?a no_config =
     Inr \<lparr>output_format = ''json'', regions = [''r1''], skip = [''s3'']\<rparr>"
    by (simp add: run_eval)
  from cli_overrides_config[where a = ?a and L = "ex_lib [] []" and E = ex_env and c = no_config
      and x = "Some ''bogus''" and y = "Some [''mars'']" and z = "Some [''nosuch'']"
      and st = "\<lparr>output_format = ''json'', regions = [''r1''], skip = [''s3'']\<rparr>"] t v
  show ?thesis by simp
qed

subsection \<open>The alarm phase in a run\<close>

lemma collect_ok:
  assumes "providers_ok L E st"
  shows "collect L E a st =
     (case (if output_format st = ''audit'' then get_alarms L E st (new_alarms L)
            else ([], Inr (new_alarms L))) of
        (evs2, Inl e) \<Rightarrow>
          (fst (get_resources L E st (new_resources L)) @ evs2, Stopped (Uncaught e))
      | (evs2, Inr al) \<Rightarrow>
          (fst (get_resources L E st (new_resources L)) @ evs2,
           emit E (render L a (tag_settings a) st (collected_resources L E a st) al)))"
  by (simp add: collect_def get_resources_ok[OF assms] collected_resources_def
      split: prod.splits sum.splits)

lemma collect_trace_audit:
  assumes "providers_ok L E st" and "output_format st = ''audit''"
  shows "fst (collect L E a st) =
           fst (get_resources L E st (new_resources L)) @ fst (get_alarms L E st (new_alarms L))"
  by (simp add: collect_ok[OF assms(1)] assms(2) split: prod.splits sum.splits)

lemma collect_alarm_entry:
  assumes "providers_ok L E st"
  shows "(EnterAlarms \<in> set (fst (collect L E a st))) = (output_format st = ''audit'')"
proof (cases "output_format st = ''audit''")
  case True
  then show ?thesis
    using get_alarms_enter[of L E st "new_alarms L"] by (simp add: collect_trace_audit[OF assms])
next
  case False
  have "\<forall>e\<in>set (fst (get_resources L E st (new_resources L))). is_resource_event e"
    by (rule get_resources_events)
  then have "EnterAlarms \<notin> set (fst (get_resources L E st (new_resources L)))" by auto
  then show ?thesis using False by (simp add: collect_ok[OF assms])
qed

lemma alarm_dispatched_append:
  "alarm_dispatched (xs @ ys) = alarm_dispatched xs @ alarm_dispatched ys"
  by (induction xs rule: alarm_dispatched.induct) simp_all

lemma alarm_done_append: "alarm_done (xs @ ys) = alarm_done xs @ alarm_done ys"
  by (induction xs rule: alarm_done.induct) simp_all

lemma alarm_dispatched_resource:
  "\<forall>e\<in>set evs. is_resource_event e \<Longrightarrow> alarm_dispatched evs = []"
  by (induction evs rule: alarm_dispatched.induct) simp_all

lemma alarm_done_resource:
  "\<forall>e\<in>set evs. is_resource_event e \<Longrightarrow> alarm_done evs = []"
  by (induction evs rule: alarm_done.induct) simp_all

lemma alarm_dispatched_map: "alarm_dispatched (map AlarmDispatched rs) = rs"
  by (induction rs) simp_all

lemma alarm_done_map: "alarm_done (map AlarmDispatched rs) = []"
  by (induction rs) simp_all

lemma get_alarms_trace:
  "alarm_dispatched (fst (get_alarms L E st al)) = regions st \<and>
   alarm_done (fst (get_alarms L E st al)) = as_completed (alarm_order E) (regions st)"
proof (cases "regions st = []")
  case True
  then show ?thesis by (simp add: get_alarms_def)
next
  case False
  then show ?thesis
    by (simp add: get_alarms_nonempty alarm_dispatched_append alarm_done_append
        alarm_dispatched_map alarm_done_map wait_all_no_dispatch wait_all_done)
qed

text \<open>Under the audit format, once the resource phase has returned, a fetch is dispatched
  for every selected region and every one of them is awaited.\<close>

lemma collect_alarm_trace:
  assumes "providers_ok L E st" and "output_format st = ''audit''"
  shows "alarm_dispatched (fst (collect L E a st)) = regions st \<and>
         mset (alarm_done (fst (collect L E a st))) = mset (regions st)"
proof -
  have r1: "\<forall>x\<in>set (fst (get_resources L E st (new_resources L))). is_resource_event x"
    by (rule get_resources_events)
  show ?thesis
    using get_alarms_trace[of L E st "new_alarms L"]
    by (simp add: collect_trace_audit[OF assms] alarm_dispatched_append alarm_done_append
        alarm_dispatched_resource[OF r1] alarm_done_resource[OF r1] as_completed_mset)
qed

subsection \<open>C9: the default format\<close>

text \<open>
  C9, as the script has it. With no \<^verbatim>\<open>--format\<close> argument and no \<^verbatim>\<open>format\<close> entry in the
  configuration file, the format of a run that passes validation is \<^verbatim>\<open>audit\<close>; and when
  the resource phase returns, the alarm phase runs: an alarm fetch is dispatched for every
  selected region and every one of them is awaited. (A run stopped by a provider that
  raises collects no alarms, whatever the format.)
\<close>

theorem default_format_is_audit:
  assumes "\<not> truthy (arg_format a)" and "cfg_format c = None" and "validate E a c = Inr st"
  shows "output_format st = ''audit'' \<and>
         (providers_ok L E st \<longrightarrow>
            EnterAlarms \<in> set (fst (run L E a c)) \<and>
            alarm_dispatched (fst (run L E a c)) = regions st \<and>
            mset (alarm_done (fst (run L E a c))) = mset (regions st))"
proof -
  have "st = chosen E a c" using validate_cases[of E a c] assms(3) by auto
  then have f: "output_format st = ''audit''"
    using assms(1,2) by (simp add: chosen_def effective_format_def)
  then show ?thesis
    using collect_alarm_entry[of L E st a] collect_alarm_trace[of L E st a]
    by (simp add: run_valid[OF assms(3)])
qed

theorem default_format_is_audit_witness:
  "\<not> truthy (arg_format no_args) \<and> cfg_format no_config = None \<and>
   validate ex_env no_args no_config =
     Inr \<lparr>output_format = ''audit'', regions = [''r1'', ''r2''], skip = []\<rparr> \<and>
   providers_ok (ex_lib [] []) ex_env
     \<lparr>output_format = ''audit'', regions = [''r1'', ''r2''], skip = []\<rparr> \<and>
   EnterAlarms \<in> set (fst (run (ex_lib [] []) ex_env no_args no_config)) \<and>
   alarm_dispatched (fst (run (ex_lib [] []) ex_env no_args no_config)) = [''r1'', ''r2''] \<and>
   mset (alarm_done (fst (run (ex_lib [] []) ex_env no_args no_config))) = mset [''r1'', ''r2'']"
proof -
  have h1: "\<not> truthy (arg_format no_args)" by (simp add: truthy_def no_args_def)
  have h2: "cfg_format no_config = None" by (simp add: no_config_def)
  have v: "validate ex_env no_args no_config =
     Inr \<lparr>output_format = ''audit'', regions = [''r1'', ''r2''], skip = []\<rparr>"
    by (simp add: run_eval)
  have p: "providers_ok (ex_lib [] []) ex_env
     \<lparr>output_format = ''audit'', regions = [''r1'', ''r2''], skip = []\<rparr>"
    by (simp add: providers_ok_def ok_item_def work_items_def ex_env_def ex_lib_def)
  from default_format_is_audit[OF h1 h2 v, where L = "ex_lib [] []"] h1 h2 v p
  show ?thesis by simp
qed

text \<open>The default format, the first provider to complete raises: the format is \<^verbatim>\<open>audit\<close>
  and the run stops before any alarm is fetched.\<close>

theorem default_run_stopped_before_alarms:
  "\<not> truthy (arg_format no_args) \<and> cfg_format no_config = None \<and>
   validate ex_env no_args no_config =
     Inr \<lparr>output_format = ''audit'', regions = [''r1'', ''r2''], skip = []\<rparr> \<and>
   run (ex_lib [(''r1'', ''ec2'')] []) ex_env no_args no_config =
     ([EnterResources,
       Dispatched ''r1'' ''ec2'', Dispatched ''r1'' ''s3'',
       Dispatched ''r2'' ''ec2'', Dispatched ''r2'' ''s3'',
       Failed ''r1'' ''ec2''],
      Stopped (Uncaught (LibError ''ec2@r1''))) \<and>
   alarm_dispatched (fst (run (ex_lib [(''r1'', ''ec2'')] []) ex_env no_args no_config)) = []"
  by (simp add: run_eval)

subsection \<open>C4: alarms are collected for the audit format only\<close>

lemma get_resources_format:
  "get_resources L E (st\<lparr>output_format := f\<rparr>) res = get_resources L E st res"
  by (simp add: get_resources_def)

lemma filter_resource_collect:
  "filter is_resource_event (fst (collect L E a st)) = fst (get_resources L E st (new_resources L))"
proof -
  from collect_shape[of L E a st] obtain evs2 where
    e: "fst (collect L E a st) = fst (get_resources L E st (new_resources L)) @ evs2"
       "\<forall>e\<in>set evs2. is_alarm_event e" by blast
  have "filter is_resource_event evs2 = []"
    using e(2) by (auto simp: filter_empty_conv dest: alarm_not_resource)
  moreover have "filter is_resource_event (fst (get_resources L E st (new_resources L)))
      = fst (get_resources L E st (new_resources L))"
    using get_resources_events[of L E st "new_resources L"] by (simp add: filter_id_conv)
  ultimately show ?thesis using e(1) by simp
qed

lemma filter_alarm_collect:
  assumes "output_format st \<noteq> ''audit''"
  shows "filter is_alarm_event (fst (collect L E a st)) = []"
proof -
  from collect_shape[of L E a st] assms
  have e: "fst (collect L E a st) = fst (get_resources L E st (new_resources L))"
    by auto
  have "\<forall>e\<in>set (fst (get_resources L E st (new_resources L))). \<not> is_alarm_event e"
    using get_resources_events[of L E st "new_resources L"] alarm_not_resource by blast
  then show ?thesis using e by (simp add: filter_empty_conv)
qed

text \<open>
  C4, as the script has it. In a run that passes validation and whose resource phase
  returns, the alarm phase runs exactly when the format is \<^verbatim>\<open>audit\<close>: under \<^verbatim>\<open>audit\<close> an
  alarm fetch is dispatched for every selected region and every one of them is awaited;
  under any other format the trace has no alarm event at all. The resource events of the
  run are the same whatever the format. (A run stopped in the resource phase collects no
  alarms under \<^verbatim>\<open>audit\<close> either.)
\<close>

theorem alarms_iff_audit:
  assumes "validate E a c = Inr st" and "providers_ok L E st"
  shows "(EnterAlarms \<in> set (fst (run L E a c))) = (output_format st = ''audit'') \<and>
         (output_format st = ''audit'' \<longrightarrow>
            alarm_dispatched (fst (run L E a c)) = regions st \<and>
            mset (alarm_done (fst (run L E a c))) = mset (regions st)) \<and>
         (output_format st \<noteq> ''audit'' \<longrightarrow> filter is_alarm_event (fst (run L E a c)) = []) \<and>
         filter is_resource_event (fst (collect L E a (st\<lparr>output_format := f\<rparr>))) =
           filter is_resource_event (fst (run L E a c))"
  using collect_alarm_entry[OF assms(2), of a] filter_alarm_collect[of st L E a]
    collect_alarm_trace[OF assms(2), of a]
  by (simp add: run_valid[OF assms(1)] filter_resource_collect get_resources_format)

theorem alarms_iff_audit_witness:
  "validate ex_env no_args no_config =
     Inr \<lparr>output_format = ''audit'', regions = [''r1'', ''r2''], skip = []\<rparr> \<and>
   providers_ok (ex_lib [] []) ex_env
     \<lparr>output_format = ''audit'', regions = [''r1'', ''r2''], skip = []\<rparr> \<and>
   EnterAlarms \<in> set (fst (run (ex_lib [] []) ex_env no_args no_config)) \<and>
   alarm_dispatched (fst (run (ex_lib [] []) ex_env no_args no_config)) = [''r1'', ''r2''] \<and>
   mset (alarm_done (fst (run (ex_lib [] []) ex_env no_args no_config))) = mset [''r1'', ''r2''] \<and>
   validate ex_env (no_args\<lparr>arg_format := Some ''json''\<rparr>) no_config =
     Inr \<lparr>output_format = ''json'', regions = [''r1'', ''r2''], skip = []\<rparr> \<and>
   providers_ok (ex_lib [] []) ex_env
     \<lparr>output_format = ''json'', regions = [''r1'', ''r2''], skip = []\<rparr> \<and>
   EnterAlarms \<notin> set (fst (run (ex_lib [] []) ex_env (no_args\<lparr>arg_format := Some ''json''\<rparr>) no_config)) \<and>
   filter is_alarm_event
     (fst (run (ex_lib [] []) ex_env (no_args\<lparr>arg_format := Some ''json''\<rparr>) no_config)) = [] \<and>
   filter is_resource_event
     (fst (collect (ex_lib [] []) ex_env (no_args\<lparr>arg_format := Some ''json''\<rparr>)
        \<lparr>output_format = ''audit'', regions = [''r1'', ''r2''], skip = []\<rparr>)) =
   filter is_resource_event
     (fst (run (ex_lib [] []) ex_env (no_args\<lparr>arg_format := Some ''json''\<rparr>) no_config))"
proof -
  have va: "validate ex_env no_args no_config =
     Inr \<lparr>output_format = ''audit'', regions = [''r1'', ''r2''], skip = []\<rparr>"
    by (simp add: run_eval)
  have pa: "providers_ok (ex_lib [] []) ex_env
     \<lparr>output_format = ''audit'', regions = [''r1'', ''r2''], skip = []\<rparr>"
    by (simp add: providers_ok_def ok_item_def work_items_def ex_env_def ex_lib_def)
  have v: "validate ex_env (no_args\<lparr>arg_format := Some ''json''\<rparr>) no_config =
     Inr \<lparr>output_format = ''json'', regions = [''r1'', ''r2''], skip = []\<rparr>"
    by (simp add: run_eval)
  have p: "providers_ok (ex_lib [] []) ex_env
     \<lparr>output_format = ''json'', regions = [''r1'', ''r2''], skip = []\<rparr>"
    by (simp add: providers_ok_def ok_item_def work_items_def ex_env_def ex_lib_def)
  from alarms_iff_audit[OF va pa] alarms_iff_audit[OF v p, where f = "''audit''"] va pa v p
  show ?thesis by simp
qed

text \<open>The format is \<^verbatim>\<open>audit\<close> and the last provider to complete raises: the run stops
  without entering the alarm phase.\<close>

theorem audit_run_without_alarm_phase:
  "validate ex_env (no_args\<lparr>arg_format := Some ''audit''\<rparr>) no_config =
     Inr \<lparr>output_format = ''audit'', regions = [''r1'', ''r2''], skip = []\<rparr> \<and>
   run (ex_lib [(''r2'', ''s3'')] []) ex_env (no_args\<lparr>arg_format := Some ''audit''\<rparr>) no_config =
     ([EnterResources,
       Dispatched ''r1'' ''ec2'', Dispatched ''r1'' ''s3'',
       Dispatched ''r2'' ''ec2'', Dispatched ''r2'' ''s3'',
       Completed ''r1'' ''ec2'', Completed ''r1'' ''s3'',
       Completed ''r2'' ''ec2'', Failed ''r2'' ''s3''],
      Stopped (Uncaught (LibError ''s3@r2''))) \<and>
   filter is_alarm_event
     (fst (run (ex_lib [(''r2'', ''s3'')] []) ex_env
             (no_args\<lparr>arg_format := Some ''audit''\<rparr>) no_config)) = []"
  by (simp add: run_eval)

subsection \<open>C5: the two phases do not interleave\<close>

text \<open>
  C5. At any alarm event of a run, every pair of the cross product has been dispatched and
  has completed before it, and no resource event follows it.
\<close>

theorem phases_sequential:
  assumes "fst (run L E a c) = pre @ ev # post" and "is_alarm_event ev"
  shows "validate E a c = Inr (chosen E a c) \<and>
         dispatched pre =
           work_items (regions (chosen E a c)) (supported_services E) (skip (chosen E a c)) \<and>
         mset (completed pre) = mset (dispatched pre) \<and>
         filter is_resource_event (ev # post) = []"
proof -
  obtain st where v: "validate E a c = Inr st"
    using assms(1) by (cases "validate E a c") (auto simp: run_def)
  have st: "st = chosen E a c" using validate_cases[of E a c] v by auto
  let ?ws = "work_items (regions st) (supported_services E) (skip st)"
  let ?evs1 = "fst (get_resources L E st (new_resources L))"
  from collect_shape[of L E a st] obtain evs2 where
    e: "fst (collect L E a st) = ?evs1 @ evs2" "\<forall>e\<in>set evs2. is_alarm_event e"
       "evs2 \<noteq> [] \<longrightarrow> providers_ok L E st \<and> output_format st = ''audit''" by blast
  have r1: "\<forall>x\<in>set ?evs1. is_resource_event x" by (rule get_resources_events)
  have eq: "?evs1 @ evs2 = pre @ ev # post"
    using assms(1) e(1) by (simp add: run_valid[OF v])
  then obtain us where
    us: "(?evs1 = pre @ us \<and> us @ evs2 = ev # post) \<or> (?evs1 @ us = pre \<and> evs2 = us @ ev # post)"
    by (auto simp: append_eq_append_conv2)
  have "\<exists>us. pre = ?evs1 @ us \<and> evs2 = us @ ev # post"
  proof -
    from us show ?thesis
    proof
      assume A: "?evs1 = pre @ us \<and> us @ evs2 = ev # post"
      show ?thesis
      proof (cases us)
        case Nil
        with A show ?thesis by simp
      next
        case (Cons u us')
        with A have "ev \<in> set ?evs1" by (metis append_Cons in_set_conv_decomp list.inject)
        with r1 assms(2) show ?thesis by (auto dest: alarm_not_resource)
      qed
    next
      assume "?evs1 @ us = pre \<and> evs2 = us @ ev # post"
      then show ?thesis by auto
    qed
  qed
  then obtain us where us: "pre = ?evs1 @ us" "evs2 = us @ ev # post" by blast
  then have ok: "providers_ok L E st" using e(3) by simp
  have na: "\<forall>x\<in>set us. \<not> is_resource_event x"
    using e(2) us(2) by (auto dest: alarm_not_resource)
  have d: "dispatched pre = ?ws"
    using us(1) na by (simp add: dispatched_append dispatched_get_resources dispatched_no_resource)
  have "completed ?evs1 = as_completed (resource_order E) ?ws"
    by (simp add: get_resources_ok[OF ok] completed_append completed_map completed_map_dispatched)
  then have "completed pre = as_completed (resource_order E) ?ws"
    using us(1) na by (simp add: completed_append completed_no_resource)
  then have m: "mset (completed pre) = mset (dispatched pre)"
    using d by (simp add: as_completed_mset)
  have "\<forall>x\<in>set (ev # post). \<not> is_resource_event x"
    using e(2) us(2) by (auto dest: alarm_not_resource)
  then have "filter is_resource_event (ev # post) = []"
    by (simp add: filter_empty_conv)
  with v d m st show ?thesis by simp
qed

theorem phases_sequential_witness:
  "fst (run (ex_lib [] [''r1'']) ex_env no_args no_config) =
     [EnterResources,
      Dispatched ''r1'' ''ec2'', Dispatched ''r1'' ''s3'',
      Dispatched ''r2'' ''ec2'', Dispatched ''r2'' ''s3'',
      Completed ''r1'' ''ec2'', Completed ''r1'' ''s3'',
      Completed ''r2'' ''ec2'', Completed ''r2'' ''s3'', EnterAlarms] @
     AlarmDispatched ''r1'' # [AlarmDispatched ''r2'', AlarmFailed ''r1'', AlarmCompleted ''r2''] \<and>
   is_alarm_event (AlarmDispatched ''r1'') \<and>
   dispatched [EnterResources,
      Dispatched ''r1'' ''ec2'', Dispatched ''r1'' ''s3'',
      Dispatched ''r2'' ''ec2'', Dispatched ''r2'' ''s3'',
      Completed ''r1'' ''ec2'', Completed ''r1'' ''s3'',
      Completed ''r2'' ''ec2'', Completed ''r2'' ''s3'', EnterAlarms] =
     work_items (regions (chosen ex_env no_args no_config)) (supported_services ex_env)
       (skip (chosen ex_env no_args no_config)) \<and>
   mset (completed [EnterResources,
      Dispatched ''r1'' ''ec2'', Dispatched ''r1'' ''s3'',
      Dispatched ''r2'' ''ec2'', Dispatched ''r2'' ''s3'',
      Completed ''r1'' ''ec2'', Completed ''r1'' ''s3'',
      Completed ''r2'' ''ec2'', Completed ''r2'' ''s3'', EnterAlarms]) =
   mset [(''r1'', ''ec2''), (''r1'', ''s3''), (''r2'', ''ec2''), (''r2'', ''s3'')] \<and>
   filter is_resource_event
     (AlarmDispatched ''r1'' # [AlarmDispatched ''r2'', AlarmFailed ''r1'', AlarmCompleted ''r2''])
     = []"
proof -
  have t: "fst (run (ex_lib [] [''r1'']) ex_env no_args no_config) =
     [EnterResources,
      Dispatched ''r1'' ''ec2'', Dispatched ''r1'' ''s3'',
      Dispatched ''r2'' ''ec2'', Dispatched ''r2'' ''s3'',
      Completed ''r1'' ''ec2'', Completed ''r1'' ''s3'',
      Completed ''r2'' ''ec2'', Completed ''r2'' ''s3'', EnterAlarms] @
     AlarmDispatched ''r1'' # [AlarmDispatched ''r2'', AlarmFailed ''r1'', AlarmCompleted ''r2'']"
    by (simp add: run_eval)
  have a: "is_alarm_event (AlarmDispatched ''r1'')" by simp
  from phases_sequential[OF t a] t a show ?thesis by simp
qed

subsection \<open>C6: a failing alarm fetch\<close>

lemma alarm_failed_in_get_alarms:
  assumes "AlarmFailed r \<in> set (fst (get_alarms L E st al))"
  shows "regions st \<noteq> [] \<and> r \<in> set (regions st) \<and> \<not> fetch_ok L r"
proof -
  have ne: "regions st \<noteq> []" using assms by (auto simp: get_alarms_def)
  then have "AlarmFailed r \<in> set (fst (wait_all L (as_completed (alarm_order E) (regions st)) al))"
    using assms by (auto simp: get_alarms_nonempty)
  then show ?thesis using ne by (simp add: wait_all_failed as_completed_set)
qed

lemma collect_audit_outcome:
  assumes "providers_ok L E st" and "output_format st = ''audit''" and "regions st \<noteq> []"
  shows "snd (collect L E a st) =
           emit E (render L a (tag_settings a) st (collected_resources L E a st)
                     (collected_alarms L E st))"
  by (simp add: collect_ok[OF assms(1)] assms(2) get_alarms_nonempty[OF assms(3)]
      wait_all_merge collected_alarms_def)

text \<open>
  C6. In a run in which the alarm fetch of a region fails, the exception is not raised
  again: a fetch was dispatched for every selected region and every one of them is
  awaited; the script goes on to render the audit output from the resource set and from
  the alarms of the regions whose fetch returned, the failed region not among them; and
  the run finishes with that rendering whenever the output can be delivered (it is
  printed, or the file of \<^verbatim>\<open>--output\<close> opens and takes the write).
\<close>

theorem alarm_failure_tolerated:
  assumes "AlarmFailed r \<in> set (fst (run L E a c))"
  shows "validate E a c = Inr (chosen E a c) \<and>
         output_format (chosen E a c) = ''audit'' \<and>
         r \<in> set (regions (chosen E a c)) \<and> \<not> fetch_ok L r \<and>
         alarm_dispatched (fst (run L E a c)) = regions (chosen E a c) \<and>
         mset (alarm_done (fst (run L E a c))) = mset (regions (chosen E a c)) \<and>
         r \<notin> set (filter (fetch_ok L) (as_completed (alarm_order E) (regions (chosen E a c)))) \<and>
         snd (run L E a c) =
           emit E (render L a (tag_settings a) (chosen E a c)
                     (collected_resources L E a (chosen E a c))
                     (collected_alarms L E (chosen E a c))) \<and>
         rep_written (render L a (tag_settings a) (chosen E a c)
                        (collected_resources L E a (chosen E a c))
                        (collected_alarms L E (chosen E a c))) =
           [out_audit L (collected_resources L E a (chosen E a c))
              (collected_alarms L E (chosen E a c)) (tag_group (tag_settings a))] \<and>
         (can_write E (render L a (tag_settings a) (chosen E a c)
                         (collected_resources L E a (chosen E a c))
                         (collected_alarms L E (chosen E a c))) \<longrightarrow>
            snd (run L E a c) =
              Finished (render L a (tag_settings a) (chosen E a c)
                          (collected_resources L E a (chosen E a c))
                          (collected_alarms L E (chosen E a c))))"
proof -
  obtain st where v: "validate E a c = Inr st"
    using assms by (cases "validate E a c") (auto simp: run_def)
  have st: "st = chosen E a c" using validate_cases[of E a c] v by auto
  let ?evs1 = "fst (get_resources L E st (new_resources L))"
  have tr: "AlarmFailed r \<in> set (fst (collect L E a st))"
    using assms by (simp add: run_valid[OF v])
  from collect_shape[of L E a st] obtain evs2 where
    e: "fst (collect L E a st) = ?evs1 @ evs2"
       "evs2 \<noteq> [] \<longrightarrow> providers_ok L E st \<and> output_format st = ''audit''" by blast
  have "\<forall>x\<in>set ?evs1. is_resource_event x" by (rule get_resources_events)
  then have "AlarmFailed r \<notin> set ?evs1" by auto
  then have "evs2 \<noteq> []" using tr e(1) by auto
  then have ok: "providers_ok L E st" and au: "output_format st = ''audit''"
    using e(2) by simp_all
  have "AlarmFailed r \<in> set (fst (get_alarms L E st (new_alarms L)))"
    using tr \<open>AlarmFailed r \<notin> set ?evs1\<close> by (simp add: collect_trace_audit[OF ok au])
  from alarm_failed_in_get_alarms[OF this]
  have ne: "regions st \<noteq> []" and mem: "r \<in> set (regions st)" and bad: "\<not> fetch_ok L r"
    by simp_all
  have out: "snd (run L E a c) =
      emit E (render L a (tag_settings a) st (collected_resources L E a st)
                (collected_alarms L E st))"
    by (simp add: run_valid[OF v] collect_audit_outcome[OF ok au ne])
  have w: "rep_written (render L a (tag_settings a) st (collected_resources L E a st)
                (collected_alarms L E st)) =
           [out_audit L (collected_resources L E a st) (collected_alarms L E st)
              (tag_group (tag_settings a))]"
    by (simp add: render_def written_def au)
  have fin: "can_write E (render L a (tag_settings a) st (collected_resources L E a st)
                (collected_alarms L E st)) \<longrightarrow>
      snd (run L E a c) =
        Finished (render L a (tag_settings a) st (collected_resources L E a st)
                    (collected_alarms L E st))"
    using out by (simp add: emit_can_write)
  have tr2: "alarm_dispatched (fst (run L E a c)) = regions st \<and>
             mset (alarm_done (fst (run L E a c))) = mset (regions st)"
    using collect_alarm_trace[OF ok au, of a] by (simp add: run_valid[OF v])
  have ab: "r \<notin> set (filter (fetch_ok L) (as_completed (alarm_order E) (regions st)))"
    using bad by simp
  show ?thesis
    using v au mem bad tr2 ab out w fin unfolding st by blast
qed

text \<open>The fetch of \<open>r1\<close> fails: the run finishes with the alarms of \<open>r2\<close> only. With an
  output file that cannot be opened, the same run ends in \<^verbatim>\<open>OSError\<close> after both phases.\<close>

theorem alarm_failure_tolerated_witness:
  "fst (run (ex_lib [] [''r1'']) ex_env no_args no_config) =
     [EnterResources,
      Dispatched ''r1'' ''ec2'', Dispatched ''r1'' ''s3'',
      Dispatched ''r2'' ''ec2'', Dispatched ''r2'' ''s3'',
      Completed ''r1'' ''ec2'', Completed ''r1'' ''s3'',
      Completed ''r2'' ''ec2'', Completed ''r2'' ''s3'', EnterAlarms,
      AlarmDispatched ''r1'', AlarmDispatched ''r2'', AlarmFailed ''r1'', AlarmCompleted ''r2''] \<and>
   \<not> fetch_ok (ex_lib [] [''r1'']) ''r1'' \<and>
   alarm_dispatched (fst (run (ex_lib [] [''r1'']) ex_env no_args no_config)) = [''r1'', ''r2''] \<and>
   mset (alarm_done (fst (run (ex_lib [] [''r1'']) ex_env no_args no_config))) =
     mset [''r1'', ''r2''] \<and>
   collected_alarms (ex_lib [] [''r1'']) ex_env (chosen ex_env no_args no_config) = [''r2''] \<and>
   can_write ex_env
     (render (ex_lib [] [''r1'']) no_args (tag_settings no_args) (chosen ex_env no_args no_config)
        (collected_resources (ex_lib [] [''r1'']) ex_env no_args (chosen ex_env no_args no_config))
        (collected_alarms (ex_lib [] [''r1'']) ex_env (chosen ex_env no_args no_config))) \<and>
   snd (run (ex_lib [] [''r1'']) ex_env no_args no_config) =
     Finished \<lparr>rep_file = None, rep_written = [''audit''],
               rep_resources = [''ec2@r1'', ''s3@r1'', ''ec2@r2'', ''s3@r2''],
               rep_alarms = [''r2''], rep_tag_group = False\<rparr> \<and>
   snd (run (ex_lib [] [''r1'']) ex_env (no_args\<lparr>arg_output := Some ''/ro/out''\<rparr>) no_config) =
     Stopped (Uncaught (OSError ''/ro/out''))"
proof -
  let ?L = "ex_lib [] [''r1'']"
  let ?st = "chosen ex_env no_args no_config"
  let ?rep = "render ?L no_args (tag_settings no_args) ?st
        (collected_resources ?L ex_env no_args ?st) (collected_alarms ?L ex_env ?st)"
  have t: "fst (run ?L ex_env no_args no_config) =
     [EnterResources,
      Dispatched ''r1'' ''ec2'', Dispatched ''r1'' ''s3'',
      Dispatched ''r2'' ''ec2'', Dispatched ''r2'' ''s3'',
      Completed ''r1'' ''ec2'', Completed ''r1'' ''s3'',
      Completed ''r2'' ''ec2'', Completed ''r2'' ''s3'', EnterAlarms,
      AlarmDispatched ''r1'', AlarmDispatched ''r2'', AlarmFailed ''r1'', AlarmCompleted ''r2'']"
    by (simp add: run_eval)
  have h: "AlarmFailed ''r1'' \<in> set (fst (run ?L ex_env no_args no_config))"
    by (simp add: t)
  have ch: "?st = \<lparr>output_format = ''audit'', regions = [''r1'', ''r2''], skip = []\<rparr>"
    by (simp add: chosen_def effective_format_def effective_regions_def effective_skip_def
        truthy_def no_args_def no_config_def ex_env_def)
  have ca: "collected_alarms ?L ex_env ?st = [''r2'']"
    unfolding collected_alarms_def ch by (simp add: fetch_ok_def ex_lib_def ex_env_def)
  have cr: "collected_resources ?L ex_env no_args ?st =
      [''ec2@r1'', ''s3@r1'', ''ec2@r2'', ''s3@r2'']"
    unfolding collected_resources_def ch
    by (simp add: post_process_def tag_settings_def truthy_def
        work_items_def no_args_def ex_lib_def ex_env_def)
  have rp: "?rep = \<lparr>rep_file = None, rep_written = [''audit''],
               rep_resources = [''ec2@r1'', ''s3@r1'', ''ec2@r2'', ''s3@r2''],
               rep_alarms = [''r2''], rep_tag_group = False\<rparr>"
    by (simp only: ca cr, simp only: ch,
        simp add: render_def written_def tag_settings_def truthy_def no_args_def ex_lib_def)
  have cw: "can_write ex_env ?rep" by (simp add: rp can_write_def)
  from alarm_failure_tolerated[OF h]
  have bad: "\<not> fetch_ok ?L ''r1''"
    and d: "alarm_dispatched (fst (run ?L ex_env no_args no_config)) = regions ?st"
    and dn: "mset (alarm_done (fst (run ?L ex_env no_args no_config))) = mset (regions ?st)"
    and fin: "can_write ex_env ?rep \<longrightarrow> snd (run ?L ex_env no_args no_config) = Finished ?rep"
    by blast+
  have d': "alarm_dispatched (fst (run ?L ex_env no_args no_config)) = [''r1'', ''r2'']"
    using d by (simp add: ch)
  have dn': "mset (alarm_done (fst (run ?L ex_env no_args no_config))) = mset [''r1'', ''r2'']"
    using dn by (simp add: ch)
  have f': "snd (run ?L ex_env no_args no_config) =
     Finished \<lparr>rep_file = None, rep_written = [''audit''],
               rep_resources = [''ec2@r1'', ''s3@r1'', ''ec2@r2'', ''s3@r2''],
               rep_alarms = [''r2''], rep_tag_group = False\<rparr>"
    using fin cw rp by simp
  have ro: "snd (run ?L ex_env (no_args\<lparr>arg_output := Some ''/ro/out''\<rparr>) no_config) =
     Stopped (Uncaught (OSError ''/ro/out''))"
    by (simp add: run_eval)
  show ?thesis by (intro conjI t bad d' dn' ca cw f' ro)
qed

end
